theory Spec2Isabelle
  imports Main
begin

section \<open>The FA2 single-edition token contract (FA2.py)\<close>

text \<open>
  A shallow embedding of the SmartPy contract \<^verbatim>\<open>FA2\<close> of \<^verbatim>\<open>FA2.py\<close>: the storage is a
  record, every entry point is a function from the call context and the storage to either
  an error or the new storage, and every \<^verbatim>\<open>sp.verify\<close> and \<^verbatim>\<open>sp.failwith\<close> is a branch
  that returns the error. Natural numbers of the contract (\<^verbatim>\<open>sp.TNat\<close>, \<^verbatim>\<open>sp.TMutez\<close>)
  are \<open>nat\<close>, \<^verbatim>\<open>sp.TInt\<close> and timestamps are \<open>int\<close>, addresses and byte strings are
  character lists. Amounts of mutez are unbounded here: the bound the platform puts on
  them, and the failure of \<^verbatim>\<open>sp.mul\<close> beyond it, are not part of \<^verbatim>\<open>FA2.py\<close>.
\<close>

subsection \<open>Values\<close>

type_synonym address = string
type_synonym bytes = string
type_synonym mutez = nat
type_synonym timestamp = int
type_synonym token_id_type = nat

text \<open>
  The failure values. The first thirteen are the messages of class \<^verbatim>\<open>Error_message\<close>
  (\<^verbatim>\<open>"FA2_" + name\<close>; \<^verbatim>\<open>bad_amount\<close> is \<^verbatim>\<open>FA2_BAD_QUANTITY\<close>). \<open>TOKEN_IDS_NOT_CONSECUTIVE\<close> is
  the message of \<^verbatim>\<open>Token_id_set.add\<close>, \<open>WrongCondition\<close> is the failure of an \<^verbatim>\<open>sp.verify\<close>
  that gives no message, and \<open>MissingKey\<close> is the failure of \<^verbatim>\<open>m[k]\<close> on an absent key.
\<close>

datatype error =
    TOKEN_UNDEFINED
  | INSUFFICIENT_BALANCE
  | NOT_OPERATOR
  | NOT_OWNER
  | BAD_VALUE
  | MAX_EDITIONS_REACHED
  | OPERATORS_UNSUPPORTED
  | NOT_ADMIN
  | NOT_ADMIN_OR_OPERATOR
  | PAUSED
  | LOCKED
  | BAD_QUANTITY
  | SALE_STARTED
  | TOKEN_IDS_NOT_CONSECUTIVE
  | WrongCondition
  | MissingKey

text \<open>The options of \<^verbatim>\<open>FA2_config\<close> that the generated contract depends on.\<close>

record FA2_config =
  readable :: bool
  support_operator :: bool
  allow_self_transfer :: bool
  cfg_price :: nat
  cfg_max_editions :: nat
  cfg_base_uri :: string

text \<open>
  \<^verbatim>\<open>sp.keccak\<close> and \<^verbatim>\<open>sp.pack\<close> belong to the platform, not to \<^verbatim>\<open>FA2.py\<close>: they are
  parameters of the model. \<open>pack_mint\<close> packs the record \<^verbatim>\<open>(now, s, tid)\<close> of \<^verbatim>\<open>mint\<close>,
  \<open>pack_operator\<close> the record \<^verbatim>\<open>(owner, operator, token_id)\<close> of \<^verbatim>\<open>Operator_set.make_key\<close>.
\<close>

record primitives =
  keccak :: "bytes \<Rightarrow> bytes"
  pack_mint :: "timestamp \<times> address \<times> token_id_type \<Rightarrow> bytes"
  pack_operator :: "address \<times> address \<times> token_id_type \<Rightarrow> bytes"

text \<open>The context of one call: \<^verbatim>\<open>sp.sender\<close>, \<^verbatim>\<open>sp.self_address\<close>, \<^verbatim>\<open>sp.amount\<close>,
  \<^verbatim>\<open>sp.now\<close> and \<^verbatim>\<open>sp.balance\<close>.\<close>

record call_ctx =
  sender :: address
  self_address :: address
  amount :: mutez
  now :: timestamp
  balance :: mutez

text \<open>The parameter types of \<^verbatim>\<open>Batch_transfer\<close>, \<^verbatim>\<open>Operator_param\<close> and \<^verbatim>\<open>Balance_of\<close>;
  the fields \<^verbatim>\<open>to_\<close>, \<^verbatim>\<open>token_id\<close>, \<^verbatim>\<open>amount\<close>, \<^verbatim>\<open>from_\<close> and \<^verbatim>\<open>txs\<close> carry the prefix of their record.\<close>

record tx =
  tx_to :: address
  tx_token_id :: token_id_type
  tx_amount :: nat

record transfer_item =
  tr_from :: address
  tr_txs :: "tx list"

record operator_param =
  owner :: address
  operator :: address
  op_token_id :: token_id_type

datatype operator_update = add_operator operator_param | remove_operator operator_param

record balance_request =
  req_owner :: address
  req_token_id :: token_id_type

record balance_response =
  request :: balance_request
  resp_balance :: nat

text \<open>A key of the lazy set of operators: the record itself when the configuration is
  \<^verbatim>\<open>readable\<close>, its packed bytes otherwise.\<close>

datatype operator_key =
    Record_key address address token_id_type
  | Packed_key bytes

text \<open>The storage set up by \<^verbatim>\<open>FA2_core.__init__\<close> with the extra fields of \<^verbatim>\<open>FA2.__init__\<close>.\<close>

record storage =
  ledger :: "nat \<rightharpoonup> address"
  hashes :: "nat \<rightharpoonup> bytes"
  operators :: "operator_key \<rightharpoonup> unit"
  all_tokens :: nat
  metadata :: "string \<rightharpoonup> bytes"
  price :: mutez
  max_editions :: nat
  script :: string
  base_uri :: bytes
  paused :: bool
  locked :: bool
  administrator :: address

text \<open>What a call hands to the platform: \<^verbatim>\<open>sp.send\<close> of \<^verbatim>\<open>mutez_transfer\<close> and the
  \<^verbatim>\<open>sp.transfer\<close> of the responses of \<^verbatim>\<open>balance_of\<close> to its callback.\<close>

datatype operation =
    Send address mutez
  | Callback address "balance_response list"

definition init_storage :: "FA2_config \<Rightarrow> (string \<rightharpoonup> bytes) \<Rightarrow> address \<Rightarrow> storage" where
  "init_storage config md admin =
     \<lparr> ledger = Map.empty,
       hashes = Map.empty,
       operators = Map.empty,
       all_tokens = 0,
       metadata = md,
       price = cfg_price config,
       max_editions = cfg_max_editions config,
       script = [],
       base_uri = cfg_base_uri config,
       paused = False,
       locked = False,
       administrator = admin \<rparr>"

subsection \<open>Auxiliary classes\<close>

text \<open>\<^verbatim>\<open>bytes_of_nat\<close>: the table \<open>c\<close> maps a digit to the byte \<^verbatim>\<open>x + 48\<close>; \<^verbatim>\<open>push\<close> puts
  a digit in front of the list, so the loop leaves the most significant digit first.\<close>

definition digit_byte :: "nat \<Rightarrow> char" where
  "digit_byte x = char_of (x + 48)"

function bytes_of_nat_loop :: "nat \<Rightarrow> bytes \<Rightarrow> bytes" where
  "bytes_of_nat_loop x res =
     (if 0 < x then bytes_of_nat_loop (x div 10) (digit_byte (x mod 10) # res) else res)"
  by pat_completeness auto
termination
  by (relation "measure (\<lambda>(x, res). x)") auto

definition bytes_of_nat :: "nat \<Rightarrow> bytes" where
  "bytes_of_nat params =
     (let res = (if params = 0 then [digit_byte (params mod 10)] else [])
      in bytes_of_nat_loop params res)"

text \<open>\<^verbatim>\<open>Operator_set\<close>.\<close>

definition make_key ::
  "FA2_config \<Rightarrow> primitives \<Rightarrow> address \<Rightarrow> address \<Rightarrow> token_id_type \<Rightarrow> operator_key" where
  "make_key config p ow opr tid =
     (if readable config then Record_key ow opr tid
      else Packed_key (pack_operator p (ow, opr, tid)))"

definition operator_set_add ::
  "FA2_config \<Rightarrow> primitives \<Rightarrow> (operator_key \<rightharpoonup> unit) \<Rightarrow> address \<Rightarrow> address \<Rightarrow> token_id_type
     \<Rightarrow> (operator_key \<rightharpoonup> unit)" where
  "operator_set_add config p ops ow opr tid = ops(make_key config p ow opr tid \<mapsto> ())"

definition operator_set_remove ::
  "FA2_config \<Rightarrow> primitives \<Rightarrow> (operator_key \<rightharpoonup> unit) \<Rightarrow> address \<Rightarrow> address \<Rightarrow> token_id_type
     \<Rightarrow> (operator_key \<rightharpoonup> unit)" where
  "operator_set_remove config p ops ow opr tid = ops(make_key config p ow opr tid := None)"

definition is_member ::
  "FA2_config \<Rightarrow> primitives \<Rightarrow> (operator_key \<rightharpoonup> unit) \<Rightarrow> address \<Rightarrow> address \<Rightarrow> token_id_type
     \<Rightarrow> bool" where
  "is_member config p ops ow opr tid = (ops (make_key config p ow opr tid) \<noteq> None)"

text \<open>\<^verbatim>\<open>Token_id_set\<close>: the set of tokens is the counter \<^verbatim>\<open>all_tokens\<close>.\<close>

definition token_id_set_add :: "nat \<Rightarrow> nat \<Rightarrow> error + nat" where
  "token_id_set_add totalTokens tokenID =
     (if totalTokens = tokenID then Inr (tokenID + 1) else Inl TOKEN_IDS_NOT_CONSECUTIVE)"

definition token_id_set_contains :: "nat \<Rightarrow> nat \<Rightarrow> bool" where
  "token_id_set_contains totalTokens tokenID = (tokenID < totalTokens)"

definition token_id_set_cardinal :: "nat \<Rightarrow> nat" where
  "token_id_set_cardinal totalTokens = totalTokens"

text \<open>\<^verbatim>\<open>m.contains(k)\<close> on a map of the storage.\<close>

definition contains :: "('k \<rightharpoonup> 'v) \<Rightarrow> 'k \<Rightarrow> bool" where
  "contains m k = (m k \<noteq> None)"

subsection \<open>Entry points\<close>

text \<open>\<^verbatim>\<open>is_administrator\<close>, \<^verbatim>\<open>is_paused\<close> and \<^verbatim>\<open>is_locked\<close> as class \<^verbatim>\<open>FA2\<close> resolves them
  (\<^verbatim>\<open>FA2_administrator\<close>, \<^verbatim>\<open>FA2_pause\<close>, \<^verbatim>\<open>FA2_lock\<close>).\<close>

definition is_administrator :: "storage \<Rightarrow> address \<Rightarrow> bool" where
  "is_administrator s a = (a = administrator s)"

definition is_paused :: "storage \<Rightarrow> bool" where
  "is_paused s = paused s"

definition is_locked :: "storage \<Rightarrow> bool" where
  "is_locked s = locked s"

text \<open>The body of the inner loop of \<^verbatim>\<open>transfer\<close>, for one \<^verbatim>\<open>tx\<close> of a group sent from
  \<open>frm\<close>.\<close>

definition transfer_tx ::
  "FA2_config \<Rightarrow> primitives \<Rightarrow> call_ctx \<Rightarrow> address \<Rightarrow> tx \<Rightarrow> storage \<Rightarrow> error + storage" where
  "transfer_tx config p ctx frm t s =
     (let sender_verify =
            (frm = sender ctx \<or>
             is_member config p (operators s) frm (sender ctx) (tx_token_id t));
          sender_verify =
            (if allow_self_transfer config
             then sender_verify \<or> sender ctx = self_address ctx
             else sender_verify)
      in if \<not> sender_verify then Inl NOT_OPERATOR
         else if \<not> contains (hashes s) (tx_token_id t) then Inl TOKEN_UNDEFINED
         else if \<not> tx_amount t \<le> 1 then Inl INSUFFICIENT_BALANCE
         else if tx_amount t = 1 then
           (case ledger s (tx_token_id t) of
              None \<Rightarrow> Inl MissingKey
            | Some cur \<Rightarrow>
                if \<not> cur = frm then Inl INSUFFICIENT_BALANCE
                else Inr (s\<lparr>ledger := (ledger s)(tx_token_id t \<mapsto> tx_to t)\<rparr>))
         else Inr s)"

fun transfer_txs ::
  "FA2_config \<Rightarrow> primitives \<Rightarrow> call_ctx \<Rightarrow> address \<Rightarrow> tx list \<Rightarrow> storage \<Rightarrow> error + storage" where
  "transfer_txs config p ctx frm [] s = Inr s"
| "transfer_txs config p ctx frm (t # ts) s =
     (case transfer_tx config p ctx frm t s of
        Inl e \<Rightarrow> Inl e
      | Inr s' \<Rightarrow> transfer_txs config p ctx frm ts s')"

fun transfer ::
  "FA2_config \<Rightarrow> primitives \<Rightarrow> call_ctx \<Rightarrow> transfer_item list \<Rightarrow> storage \<Rightarrow> error + storage" where
  "transfer config p ctx [] s = Inr s"
| "transfer config p ctx (tr # trs) s =
     (case transfer_txs config p ctx (tr_from tr) (tr_txs tr) s of
        Inl e \<Rightarrow> Inl e
      | Inr s' \<Rightarrow> transfer config p ctx trs s')"

text \<open>\<^verbatim>\<open>balance_of\<close>: \<^verbatim>\<open>f_process_request\<close> mapped over the requests, the responses sent
  to the callback.\<close>

definition f_process_request :: "storage \<Rightarrow> balance_request \<Rightarrow> error + balance_response" where
  "f_process_request s req =
     (if \<not> contains (hashes s) (req_token_id req) then Inl TOKEN_UNDEFINED
      else case ledger s (req_token_id req) of
             None \<Rightarrow> Inl MissingKey
           | Some cur \<Rightarrow>
               if cur = req_owner req
               then Inr \<lparr>request = \<lparr>req_owner = req_owner req, req_token_id = req_token_id req\<rparr>,
                         resp_balance = 1\<rparr>
               else Inr \<lparr>request = \<lparr>req_owner = req_owner req, req_token_id = req_token_id req\<rparr>,
                         resp_balance = 0\<rparr>)"

fun process_requests :: "storage \<Rightarrow> balance_request list \<Rightarrow> error + balance_response list" where
  "process_requests s [] = Inr []"
| "process_requests s (req # reqs) =
     (case f_process_request s req of
        Inl e \<Rightarrow> Inl e
      | Inr r \<Rightarrow>
          (case process_requests s reqs of
             Inl e \<Rightarrow> Inl e
           | Inr rs \<Rightarrow> Inr (r # rs)))"

definition balance_of ::
  "balance_request list \<Rightarrow> address \<Rightarrow> storage \<Rightarrow> error + operation list \<times> storage" where
  "balance_of requests callback s =
     (case process_requests s requests of
        Inl e \<Rightarrow> Inl e
      | Inr res \<Rightarrow> Inr ([Callback callback res], s))"

text \<open>\<^verbatim>\<open>update_operators\<close>.\<close>

definition update_operator ::
  "FA2_config \<Rightarrow> primitives \<Rightarrow> call_ctx \<Rightarrow> operator_update \<Rightarrow> storage \<Rightarrow> error + storage" where
  "update_operator config p ctx update s =
     (case update of
        add_operator upd \<Rightarrow>
          if \<not> owner upd = sender ctx then Inl NOT_OWNER
          else Inr (s\<lparr>operators :=
                 operator_set_add config p (operators s) (owner upd) (operator upd) (op_token_id upd)\<rparr>)
      | remove_operator upd \<Rightarrow>
          if \<not> owner upd = sender ctx then Inl NOT_OWNER
          else Inr (s\<lparr>operators :=
                 operator_set_remove config p (operators s) (owner upd) (operator upd) (op_token_id upd)\<rparr>))"

fun update_operators_loop ::
  "FA2_config \<Rightarrow> primitives \<Rightarrow> call_ctx \<Rightarrow> operator_update list \<Rightarrow> storage \<Rightarrow> error + storage" where
  "update_operators_loop config p ctx [] s = Inr s"
| "update_operators_loop config p ctx (u # us) s =
     (case update_operator config p ctx u s of
        Inl e \<Rightarrow> Inl e
      | Inr s' \<Rightarrow> update_operators_loop config p ctx us s')"

definition update_operators ::
  "FA2_config \<Rightarrow> primitives \<Rightarrow> call_ctx \<Rightarrow> operator_update list \<Rightarrow> storage \<Rightarrow> error + storage" where
  "update_operators config p ctx params s =
     (if support_operator config then update_operators_loop config p ctx params s
      else Inl OPERATORS_UNSUPPORTED)"

text \<open>\<^verbatim>\<open>set_mint_parameters\<close>.\<close>

definition set_mint_parameters :: "call_ctx \<Rightarrow> mutez \<Rightarrow> nat \<Rightarrow> storage \<Rightarrow> error + storage" where
  "set_mint_parameters ctx new_price new_max_editions s =
     (if \<not> is_administrator s (sender ctx) then Inl NOT_ADMIN
      else if \<not> all_tokens s \<le> 1 then Inl SALE_STARTED
      else if \<not> all_tokens s \<le> new_max_editions then Inl BAD_QUANTITY
      else Inr (s\<lparr>max_editions := new_max_editions, price := new_price\<rparr>))"

text \<open>\<^verbatim>\<open>set_administrator\<close>, \<^verbatim>\<open>set_pause\<close>, \<^verbatim>\<open>lock\<close>, \<^verbatim>\<open>set_script\<close>, \<^verbatim>\<open>set_base_uri\<close>.\<close>

definition set_administrator :: "call_ctx \<Rightarrow> address \<Rightarrow> storage \<Rightarrow> error + storage" where
  "set_administrator ctx params s =
     (if \<not> is_administrator s (sender ctx) then Inl NOT_ADMIN
      else Inr (s\<lparr>administrator := params\<rparr>))"

definition set_pause :: "call_ctx \<Rightarrow> bool \<Rightarrow> storage \<Rightarrow> error + storage" where
  "set_pause ctx params s =
     (if \<not> is_administrator s (sender ctx) then Inl NOT_ADMIN
      else Inr (s\<lparr>paused := params\<rparr>))"

definition lock :: "call_ctx \<Rightarrow> storage \<Rightarrow> error + storage" where
  "lock ctx s =
     (if \<not> is_administrator s (sender ctx) then Inl NOT_ADMIN
      else Inr (s\<lparr>locked := True\<rparr>))"

definition set_script :: "call_ctx \<Rightarrow> string \<Rightarrow> storage \<Rightarrow> error + storage" where
  "set_script ctx scr s =
     (if is_locked s then Inl LOCKED
      else if \<not> is_administrator s (sender ctx) then Inl NOT_ADMIN
      else Inr (s\<lparr>script := scr\<rparr>))"

definition set_base_uri :: "call_ctx \<Rightarrow> bytes \<Rightarrow> storage \<Rightarrow> error + storage" where
  "set_base_uri ctx params s =
     (if is_locked s then Inl LOCKED
      else if \<not> is_administrator s (sender ctx) then Inl NOT_ADMIN
      else Inr (s\<lparr>base_uri := params\<rparr>))"

text \<open>\<^verbatim>\<open>mutez_transfer\<close>: both checks are \<^verbatim>\<open>sp.verify\<close> without a message.\<close>

definition mutez_transfer ::
  "call_ctx \<Rightarrow> address \<Rightarrow> mutez \<Rightarrow> storage \<Rightarrow> error + operation list \<times> storage" where
  "mutez_transfer ctx destination amt s =
     (if \<not> sender ctx = administrator s then Inl WrongCondition
      else if \<not> amt \<le> balance ctx then Inl WrongCondition
      else Inr ([Send destination amt], s))"

text \<open>\<^verbatim>\<open>mint\<close>. \<^verbatim>\<open>sp.as_nat\<close> fails with its message on a negative integer. \<open>mint_step\<close> is
  the body of the \<^verbatim>\<open>while\<close> loop, \<open>mint_loop\<close> the loop on the counter \<open>i\<close>.\<close>

definition as_nat :: "int \<Rightarrow> error \<Rightarrow> error + nat" where
  "as_nat i message = (if 0 \<le> i then Inr (nat i) else Inl message)"

definition mint_step :: "primitives \<Rightarrow> call_ctx \<Rightarrow> storage \<Rightarrow> error + storage" where
  "mint_step p ctx s =
     (let token_id = all_tokens s
      in if \<not> token_id < max_editions s then Inl MAX_EDITIONS_REACHED
         else
           let token_hash = keccak p (pack_mint p (now ctx, sender ctx, token_id));
               s1 = s\<lparr>ledger := (ledger s)(token_id \<mapsto> sender ctx)\<rparr>;
               s2 = s1\<lparr>hashes := (hashes s1)(token_id \<mapsto> token_hash)\<rparr>
           in case token_id_set_add (all_tokens s2) token_id of
                Inl e \<Rightarrow> Inl e
              | Inr n \<Rightarrow> Inr (s2\<lparr>all_tokens := n\<rparr>))"

function mint_loop :: "primitives \<Rightarrow> call_ctx \<Rightarrow> int \<Rightarrow> storage \<Rightarrow> error + storage" where
  "mint_loop p ctx i s =
     (if i > 0 then
        (case mint_step p ctx s of
           Inl e \<Rightarrow> Inl e
         | Inr s' \<Rightarrow> mint_loop p ctx (i - 1) s')
      else Inr s)"
  by pat_completeness auto
termination
  by (relation "measure (\<lambda>(p, ctx, i, s). nat i)") auto

definition mint :: "primitives \<Rightarrow> call_ctx \<Rightarrow> int \<Rightarrow> storage \<Rightarrow> error + storage" where
  "mint p ctx amt s =
     (if \<not> amt > 0 then Inl BAD_QUANTITY
      else if is_paused s then Inl PAUSED
      else case as_nat amt BAD_QUANTITY of
             Inl e \<Rightarrow> Inl e
           | Inr nat_amount \<Rightarrow>
               if \<not> amount ctx = price s * nat_amount then Inl BAD_VALUE
               else if \<not> all_tokens s + nat_amount \<le> max_editions s then Inl MAX_EDITIONS_REACHED
               else mint_loop p ctx amt s)"

subsection \<open>Off-chain views\<close>

definition get_balance :: "storage \<Rightarrow> balance_request \<Rightarrow> error + nat" where
  "get_balance s req =
     (if \<not> contains (hashes s) (req_token_id req) then Inl TOKEN_UNDEFINED
      else case ledger s (req_token_id req) of
             None \<Rightarrow> Inl MissingKey
           | Some cur \<Rightarrow> if cur = req_owner req then Inr 1 else Inr 0)"

definition count_tokens :: "storage \<Rightarrow> nat" where
  "count_tokens s = token_id_set_cardinal (all_tokens s)"

definition does_token_exist :: "storage \<Rightarrow> nat \<Rightarrow> bool" where
  "does_token_exist s tok = contains (hashes s) tok"

definition all_tokens_view :: "storage \<Rightarrow> nat list" where
  "all_tokens_view s = [0 ..< all_tokens s]"

definition total_supply :: "storage \<Rightarrow> nat \<Rightarrow> error + nat" where
  "total_supply s tok =
     (if \<not> tok < max_editions s then Inl TOKEN_UNDEFINED else Inr 1)"

definition is_operator :: "FA2_config \<Rightarrow> primitives \<Rightarrow> storage \<Rightarrow> operator_param \<Rightarrow> bool" where
  "is_operator config p s query =
     is_member config p (operators s) (owner query) (operator query) (op_token_id query)"

text \<open>\<^verbatim>\<open>make_metadata\<close> and the view \<^verbatim>\<open>token_metadata\<close>; the map is kept as the list of
  its entries, in the order of the source, and \<open>decimals\<close> is the string that
  \<^verbatim>\<open>"%d" % decimals\<close> gives, \<^verbatim>\<open>0\<close> for the one call there is.\<close>

definition make_metadata ::
  "string \<Rightarrow> string \<Rightarrow> string \<Rightarrow> bytes \<Rightarrow> bytes \<Rightarrow> (string \<times> bytes) list" where
  "make_metadata symbol name decimals token_hash uri =
     [(''decimals'', decimals),
      (''name'', name),
      (''symbol'', symbol),
      (''token_hash'', token_hash),
      ('''', uri)]"

definition token_metadata :: "storage \<Rightarrow> nat \<Rightarrow> error + nat \<times> (string \<times> bytes) list" where
  "token_metadata s token_id =
     (if \<not> token_id < all_tokens s then Inl TOKEN_UNDEFINED
      else case hashes s token_id of
             None \<Rightarrow> Inl MissingKey
           | Some token_hash \<Rightarrow>
               Inr (token_id,
                    make_metadata ''BOB'' ''Blocks on Blocks'' ''0'' token_hash
                      (base_uri s @ bytes_of_nat token_id)))"

subsection \<open>The contract as a state machine\<close>

datatype call =
    Transfer "transfer_item list"
  | Balance_of "balance_request list" address
  | Update_operators "operator_update list"
  | Set_mint_parameters mutez nat
  | Set_administrator address
  | Set_pause bool
  | Lock
  | Mint int
  | Set_script string
  | Set_base_uri bytes
  | Transfer_mutez address mutez

definition no_ops :: "error + storage \<Rightarrow> error + operation list \<times> storage" where
  "no_ops r = (case r of Inl e \<Rightarrow> Inl e | Inr s \<Rightarrow> Inr ([], s))"

fun entry_point ::
  "FA2_config \<Rightarrow> primitives \<Rightarrow> call_ctx \<Rightarrow> call \<Rightarrow> storage \<Rightarrow> error + operation list \<times> storage" where
  "entry_point config p ctx (Transfer params) s = no_ops (transfer config p ctx params s)"
| "entry_point config p ctx (Balance_of requests callback) s = balance_of requests callback s"
| "entry_point config p ctx (Update_operators params) s =
     no_ops (update_operators config p ctx params s)"
| "entry_point config p ctx (Set_mint_parameters pr me) s =
     no_ops (set_mint_parameters ctx pr me s)"
| "entry_point config p ctx (Set_administrator a) s = no_ops (set_administrator ctx a s)"
| "entry_point config p ctx (Set_pause b) s = no_ops (set_pause ctx b s)"
| "entry_point config p ctx Lock s = no_ops (lock ctx s)"
| "entry_point config p ctx (Mint amt) s = no_ops (mint p ctx amt s)"
| "entry_point config p ctx (Set_script scr) s = no_ops (set_script ctx scr s)"
| "entry_point config p ctx (Set_base_uri b) s = no_ops (set_base_uri ctx b s)"
| "entry_point config p ctx (Transfer_mutez d a) s = mutez_transfer ctx d a s"

text \<open>A failed call is reverted as a whole: the storage the chain keeps after a call is
  the one the entry point returns, or the storage before the call when it fails.\<close>

definition storage_after ::
  "FA2_config \<Rightarrow> primitives \<Rightarrow> call_ctx \<Rightarrow> call \<Rightarrow> storage \<Rightarrow> storage" where
  "storage_after config p ctx c s =
     (case entry_point config p ctx c s of Inl e \<Rightarrow> s | Inr (ops, s') \<Rightarrow> s')"

fun run_calls ::
  "FA2_config \<Rightarrow> primitives \<Rightarrow> (call_ctx \<times> call) list \<Rightarrow> storage \<Rightarrow> storage" where
  "run_calls config p [] s = s"
| "run_calls config p ((ctx, c) # cs) s = run_calls config p cs (storage_after config p ctx c s)"

text \<open>The states the contract can be in: the initial storage, and every storage left by
  a call, whatever its context and parameter, on a state it can be in.\<close>

inductive reachable :: "FA2_config \<Rightarrow> primitives \<Rightarrow> storage \<Rightarrow> bool"
  for config :: FA2_config and p :: primitives where
  reachable_init: "reachable config p (init_storage config md admin)"
| reachable_call: "reachable config p s \<Longrightarrow> reachable config p (storage_after config p ctx c s)"

text \<open>The invariant of the registry: both mappings have the key set \<open>[0, all_tokens)\<close>.\<close>

definition registry_inv :: "storage \<Rightarrow> bool" where
  "registry_inv s \<longleftrightarrow> dom (ledger s) = {..< all_tokens s} \<and> dom (hashes s) = {..< all_tokens s}"

subsection \<open>Vocabulary of the specification\<close>

text \<open>The authorization rule of a transfer leg in the words of the specification: the
  caller is the declared \<^verbatim>\<open>from\<close>, or a delegated operator for \<^verbatim>\<open>(from, caller, id)\<close>, or,
  when self-transfer is enabled, the contract itself.\<close>

definition sender_allowed ::
  "FA2_config \<Rightarrow> primitives \<Rightarrow> call_ctx \<Rightarrow> address \<Rightarrow> token_id_type \<Rightarrow> storage \<Rightarrow> bool" where
  "sender_allowed config p ctx frm tid s \<longleftrightarrow>
     sender ctx = frm
     \<or> is_member config p (operators s) frm (sender ctx) tid
     \<or> (allow_self_transfer config \<and> sender ctx = self_address ctx)"

text \<open>The legs of a batch, each with the \<^verbatim>\<open>from\<close> of its group, in input order, and the
  legs run one after the other until one fails.\<close>

fun legs_of :: "transfer_item list \<Rightarrow> (address \<times> tx) list" where
  "legs_of [] = []"
| "legs_of (tr # trs) = map (Pair (tr_from tr)) (tr_txs tr) @ legs_of trs"

fun run_legs ::
  "FA2_config \<Rightarrow> primitives \<Rightarrow> call_ctx \<Rightarrow> (address \<times> tx) list \<Rightarrow> storage \<Rightarrow> error + storage" where
  "run_legs config p ctx [] s = Inr s"
| "run_legs config p ctx ((frm, t) # ls) s =
     (case transfer_tx config p ctx frm t s of
        Inl e \<Rightarrow> Inl e
      | Inr s' \<Rightarrow> run_legs config p ctx ls s')"

subsection \<open>A deployment used in the examples\<close>

text \<open>The configuration of \<^verbatim>\<open>environment_config\<close> with no environment variable set, a
  stand-in for the two platform primitives, and the accounts of the test scenario.\<close>

definition env_config :: FA2_config where
  "env_config =
     \<lparr> readable = True, support_operator = True, allow_self_transfer = False,
       cfg_price = 1000000, cfg_max_editions = 4096,
       cfg_base_uri = ''https://blocks-on-blocks.herokuapp.com/api/'' \<rparr>"

definition toy_primitives :: primitives where
  "toy_primitives =
     \<lparr> keccak = (\<lambda>b. b),
       pack_mint = (\<lambda>(t, a, i). a @ bytes_of_nat i),
       pack_operator = (\<lambda>(ow, opr, i). ow @ opr @ bytes_of_nat i) \<rparr>"

definition admin_addr :: address where "admin_addr = ''Administrator''"
definition alice :: address where "alice = ''Alice''"
definition bob :: address where "bob = ''Robert''"

definition call_by :: "address \<Rightarrow> mutez \<Rightarrow> call_ctx" where
  "call_by a paid = \<lparr> sender = a, self_address = ''FA2'', amount = paid, now = 0, balance = paid \<rparr>"

definition fresh :: storage where
  "fresh = init_storage env_config Map.empty admin_addr"

text \<open>The contract after Alice has minted token 0, after the administrator has then
  locked it, and after Alice has made Robert her operator for token 0.\<close>

definition minted :: storage where
  "minted = storage_after env_config toy_primitives (call_by alice 1000000) (Mint 1) fresh"

definition minted_locked :: storage where
  "minted_locked = storage_after env_config toy_primitives (call_by admin_addr 0) Lock minted"

definition bob_for_alice :: operator_param where
  "bob_for_alice = \<lparr> owner = alice, operator = bob, op_token_id = 0 \<rparr>"

definition delegated :: storage where
  "delegated =
     storage_after env_config toy_primitives (call_by alice 0)
       (Update_operators [add_operator bob_for_alice]) minted"

definition leg :: "address \<Rightarrow> token_id_type \<Rightarrow> nat \<Rightarrow> tx" where
  "leg dest tid n = \<lparr> tx_to = dest, tx_token_id = tid, tx_amount = n \<rparr>"

section \<open>Properties\<close>

subsection \<open>Minting\<close>

lemma mint_step_ok:
  "all_tokens s < max_editions s \<Longrightarrow>
   mint_step p ctx s =
     Inr (s\<lparr>ledger := (ledger s)(all_tokens s \<mapsto> sender ctx),
            hashes := (hashes s)(all_tokens s \<mapsto>
                        keccak p (pack_mint p (now ctx, sender ctx, all_tokens s))),
            all_tokens := all_tokens s + 1\<rparr>)"
  by (simp add: mint_step_def token_id_set_add_def Let_def)

lemma mint_loop_Suc:
  "mint_loop p ctx (int (Suc k)) s =
     (case mint_step p ctx s of Inl e \<Rightarrow> Inl e | Inr s' \<Rightarrow> mint_loop p ctx (int k) s')"
  by (subst mint_loop.simps) (simp split: sum.splits)

lemma mint_loop_0: "mint_loop p ctx 0 s = Inr s"
  by (subst mint_loop.simps) simp

text \<open>The loop run \<open>k\<close> times below the ceiling: it writes the range
  \<open>[all_tokens, all_tokens + k)\<close> of both maps and nothing else.\<close>

lemma mint_loop_spec:
  "all_tokens s + k \<le> max_editions s \<Longrightarrow>
   \<exists>L H. mint_loop p ctx (int k) s =
            Inr (s\<lparr>ledger := L, hashes := H, all_tokens := all_tokens s + k\<rparr>) \<and>
     (\<forall>i. L i = (if all_tokens s \<le> i \<and> i < all_tokens s + k
                  then Some (sender ctx) else ledger s i)) \<and>
     (\<forall>i. H i = (if all_tokens s \<le> i \<and> i < all_tokens s + k
                  then Some (keccak p (pack_mint p (now ctx, sender ctx, i))) else hashes s i))"
proof (induction k arbitrary: s)
  case 0
  show ?case
    by (rule exI [of _ "ledger s"], rule exI [of _ "hashes s"]) (auto simp add: mint_loop_0)
next
  case (Suc k)
  let ?s1 = "s\<lparr>ledger := (ledger s)(all_tokens s \<mapsto> sender ctx),
            hashes := (hashes s)(all_tokens s \<mapsto>
                        keccak p (pack_mint p (now ctx, sender ctx, all_tokens s))),
            all_tokens := all_tokens s + 1\<rparr>"
  from Suc.prems have lt: "all_tokens s < max_editions s" by simp
  from Suc.prems have "all_tokens ?s1 + k \<le> max_editions ?s1" by simp
  from Suc.IH [OF this] obtain L H where
    run: "mint_loop p ctx (int k) ?s1 =
            Inr (?s1\<lparr>ledger := L, hashes := H, all_tokens := all_tokens ?s1 + k\<rparr>)"
    and L: "\<forall>i. L i = (if all_tokens ?s1 \<le> i \<and> i < all_tokens ?s1 + k
                        then Some (sender ctx) else ledger ?s1 i)"
    and H: "\<forall>i. H i = (if all_tokens ?s1 \<le> i \<and> i < all_tokens ?s1 + k
                        then Some (keccak p (pack_mint p (now ctx, sender ctx, i)))
                        else hashes ?s1 i)"
    by blast
  have "mint_loop p ctx (int (Suc k)) s =
          Inr (s\<lparr>ledger := L, hashes := H, all_tokens := all_tokens s + Suc k\<rparr>)"
    using run by (simp only: mint_loop_Suc mint_step_ok [OF lt]) simp
  moreover have "\<forall>i. L i = (if all_tokens s \<le> i \<and> i < all_tokens s + Suc k
                             then Some (sender ctx) else ledger s i)"
    using L by auto
  moreover have "\<forall>i. H i = (if all_tokens s \<le> i \<and> i < all_tokens s + Suc k
                             then Some (keccak p (pack_mint p (now ctx, sender ctx, i)))
                             else hashes s i)"
    using H by auto
  ultimately show ?case by blast
qed

lemma mint_Inr_pre:
  "mint p ctx amt s = Inr s' \<Longrightarrow>
   0 < amt \<and> \<not> paused s \<and> amount ctx = price s * nat amt \<and>
   all_tokens s + nat amt \<le> max_editions s"
  by (simp add: mint_def is_paused_def as_nat_def split: if_splits)

lemma mint_ok:
  assumes "0 < amt" and "\<not> paused s" and "amount ctx = price s * nat amt"
    and "all_tokens s + nat amt \<le> max_editions s"
  shows "\<exists>L H. mint p ctx amt s =
                 Inr (s\<lparr>ledger := L, hashes := H, all_tokens := all_tokens s + nat amt\<rparr>) \<and>
     (\<forall>i. L i = (if all_tokens s \<le> i \<and> i < all_tokens s + nat amt
                  then Some (sender ctx) else ledger s i)) \<and>
     (\<forall>i. H i = (if all_tokens s \<le> i \<and> i < all_tokens s + nat amt
                  then Some (keccak p (pack_mint p (now ctx, sender ctx, i))) else hashes s i))"
proof -
  from assms(1) have "int (nat amt) = amt" by simp
  then have "mint p ctx amt s = mint_loop p ctx (int (nat amt)) s"
    using assms by (simp add: mint_def is_paused_def as_nat_def)
  with mint_loop_spec [OF assms(4), of p ctx] show ?thesis by simp
qed

text \<open>
  \<^bold>\<open>Claim C1.\<close> A call \<^verbatim>\<open>mint(amount)\<close> whose preconditions hold (the amount is a positive
  integer, with \<open>n\<close> its natural number; the contract is not paused; the payment is
  \<open>price * n\<close>; \<open>all_tokens + n \<le> max_editions\<close>) succeeds. Afterwards \<open>all_tokens\<close> is its
  prior value plus \<open>n\<close>; the ids written are exactly those of the range
  \<open>[all_tokens, all_tokens + n)\<close>, every other entry of the ledger and of the hashes being
  what it was; each id of the range is owned by the caller; and its commitment is the
  keccak hash of the packed record of the timestamp of the call, the caller and the id.
\<close>

theorem mint_succeeds:
  assumes "0 < amt" and "\<not> paused s" and "amount ctx = price s * nat amt"
    and "all_tokens s + nat amt \<le> max_editions s"
  shows "\<exists>s'. mint p ctx amt s = Inr s' \<and>
           all_tokens s' = all_tokens s + nat amt \<and>
           (\<forall>i. ledger s' i =
                  (if all_tokens s \<le> i \<and> i < all_tokens s + nat amt
                   then Some (sender ctx) else ledger s i)) \<and>
           (\<forall>i. hashes s' i =
                  (if all_tokens s \<le> i \<and> i < all_tokens s + nat amt
                   then Some (keccak p (pack_mint p (now ctx, sender ctx, i)))
                   else hashes s i))"
proof -
  from mint_ok [OF assms] obtain L H where
    "mint p ctx amt s = Inr (s\<lparr>ledger := L, hashes := H, all_tokens := all_tokens s + nat amt\<rparr>)"
    and "\<forall>i. L i = (if all_tokens s \<le> i \<and> i < all_tokens s + nat amt
                     then Some (sender ctx) else ledger s i)"
    and "\<forall>i. H i = (if all_tokens s \<le> i \<and> i < all_tokens s + nat amt
                     then Some (keccak p (pack_mint p (now ctx, sender ctx, i)))
                     else hashes s i)"
    by blast
  then show ?thesis by simp
qed

text \<open>Alice mints two tokens on the fresh contract, paying twice the price: the ids 0
  and 1 are hers and the counter is 2.\<close>

theorem mint_succeeds_witness:
  "\<exists>s'. mint toy_primitives (call_by alice 2000000) 2 fresh = Inr s' \<and>
         all_tokens s' = 2 \<and>
         ledger s' 0 = Some alice \<and> ledger s' 1 = Some alice \<and> ledger s' 2 = None \<and>
         hashes s' 1 = Some (keccak toy_primitives (pack_mint toy_primitives (0, alice, 1)))"
proof -
  have h1: "0 < (2::int)" by simp
  have h2: "\<not> paused fresh" by (simp add: fresh_def init_storage_def)
  have h3: "amount (call_by alice 2000000) = price fresh * nat 2"
    by (simp add: fresh_def init_storage_def call_by_def env_config_def)
  have h4: "all_tokens fresh + nat 2 \<le> max_editions fresh"
    by (simp add: fresh_def init_storage_def env_config_def)
  from mint_succeeds [OF h1 h2 h3 h4, of toy_primitives] obtain s' where
    m: "mint toy_primitives (call_by alice 2000000) 2 fresh = Inr s'"
    and a: "all_tokens s' = all_tokens fresh + nat 2"
    and l: "\<forall>i. ledger s' i =
                  (if all_tokens fresh \<le> i \<and> i < all_tokens fresh + nat 2
                   then Some (sender (call_by alice 2000000)) else ledger fresh i)"
    and h: "\<forall>i. hashes s' i =
                  (if all_tokens fresh \<le> i \<and> i < all_tokens fresh + nat 2
                   then Some (keccak toy_primitives (pack_mint toy_primitives
                          (now (call_by alice 2000000), sender (call_by alice 2000000), i)))
                   else hashes fresh i)"
    by blast
  have z: "all_tokens fresh = 0" "ledger fresh = Map.empty"
    by (simp_all add: fresh_def init_storage_def)
  have c: "sender (call_by alice 2000000) = alice" "now (call_by alice 2000000) = 0"
    by (simp_all add: call_by_def)
  from a z have "all_tokens s' = 2" by simp
  moreover from l z c have "ledger s' 0 = Some alice" "ledger s' 1 = Some alice" "ledger s' 2 = None"
    by simp_all
  moreover from h z c
  have "hashes s' 1 = Some (keccak toy_primitives (pack_mint toy_primitives (0, alice, 1)))"
    by simp
  ultimately show ?thesis using m by blast
qed

text \<open>
  \<^bold>\<open>Claim C4.\<close> The checks of \<^verbatim>\<open>mint(amount)\<close> are made in this order and the first
  one violated names the failure: \<^verbatim>\<open>FA2_BAD_QUANTITY\<close> when the amount is not positive;
  \<^verbatim>\<open>FA2_PAUSED\<close> when the contract is paused; \<^verbatim>\<open>FA2_BAD_VALUE\<close> when the payment differs
  from \<open>price * amount\<close>, be it less or more; \<^verbatim>\<open>FA2_MAX_EDITIONS_REACHED\<close> when
  \<open>all_tokens + amount\<close> exceeds \<open>max_editions\<close>. Whenever \<^verbatim>\<open>mint\<close> fails, the call fails
  and the storage is the one before the call.
\<close>

theorem mint_failures:
  "(\<not> 0 < amt \<longrightarrow> mint p ctx amt s = Inl BAD_QUANTITY) \<and>
   (0 < amt \<and> paused s \<longrightarrow> mint p ctx amt s = Inl PAUSED) \<and>
   (0 < amt \<and> \<not> paused s \<and> amount ctx \<noteq> price s * nat amt \<longrightarrow>
      mint p ctx amt s = Inl BAD_VALUE) \<and>
   (0 < amt \<and> \<not> paused s \<and> amount ctx = price s * nat amt \<and>
    max_editions s < all_tokens s + nat amt \<longrightarrow>
      mint p ctx amt s = Inl MAX_EDITIONS_REACHED) \<and>
   (\<forall>e. mint p ctx amt s = Inl e \<longrightarrow>
      entry_point config p ctx (Mint amt) s = Inl e \<and>
      storage_after config p ctx (Mint amt) s = s)"
  by (simp add: mint_def is_paused_def as_nat_def storage_after_def no_ops_def)

text \<open>On the fresh contract, whose price is 1000000: an amount of 0 is a bad quantity, and
  a mint of one token that pays 999999 or 1000001 is a bad value; the storage stays.\<close>

theorem mint_failures_witness:
  "mint toy_primitives (call_by alice 0) 0 fresh = Inl BAD_QUANTITY \<and>
   mint toy_primitives (call_by alice 999999) 1 fresh = Inl BAD_VALUE \<and>
   mint toy_primitives (call_by alice 1000001) 1 fresh = Inl BAD_VALUE \<and>
   storage_after env_config toy_primitives (call_by alice 999999) (Mint 1) fresh = fresh"
proof -
  have f: "\<not> paused fresh" "price fresh = 1000000"
    by (simp_all add: fresh_def init_storage_def env_config_def)
  have "mint toy_primitives (call_by alice 0) 0 fresh = Inl BAD_QUANTITY"
    using mint_failures [of 0 toy_primitives "call_by alice 0" fresh env_config] by simp
  moreover have u: "mint toy_primitives (call_by alice 999999) 1 fresh = Inl BAD_VALUE"
    using mint_failures [of 1 toy_primitives "call_by alice 999999" fresh env_config] f
    by (simp add: call_by_def)
  moreover have "mint toy_primitives (call_by alice 1000001) 1 fresh = Inl BAD_VALUE"
    using mint_failures [of 1 toy_primitives "call_by alice 1000001" fresh env_config] f
    by (simp add: call_by_def)
  moreover have "storage_after env_config toy_primitives (call_by alice 999999) (Mint 1) fresh = fresh"
    using mint_failures [of 1 toy_primitives "call_by alice 999999" fresh env_config] u
    by blast
  ultimately show ?thesis by blast
qed

subsection \<open>What each entry point writes\<close>

lemma transfer_tx_frame:
  "transfer_tx config p ctx frm t s = Inr s' \<Longrightarrow>
   \<exists>L. s' = s\<lparr>ledger := L\<rparr> \<and> dom L = dom (ledger s)"
proof (cases "tx_amount t = 1")
  case False
  assume "transfer_tx config p ctx frm t s = Inr s'"
  with False have "s' = s"
    by (simp add: transfer_tx_def Let_def split: if_splits)
  then have "s' = s\<lparr>ledger := ledger s\<rparr>" by simp
  then show ?thesis by blast
next
  case True
  assume ok: "transfer_tx config p ctx frm t s = Inr s'"
  with True obtain cur where cur: "ledger s (tx_token_id t) = Some cur"
    by (cases "ledger s (tx_token_id t)") (simp_all add: transfer_tx_def Let_def split: if_splits)
  with ok True have "s' = s\<lparr>ledger := (ledger s)(tx_token_id t \<mapsto> tx_to t)\<rparr>"
    by (simp add: transfer_tx_def Let_def split: if_splits)
  moreover from cur have "dom ((ledger s)(tx_token_id t \<mapsto> tx_to t)) = dom (ledger s)"
    by auto
  ultimately show ?thesis by blast
qed

lemma run_legs_frame:
  "run_legs config p ctx ls s = Inr s' \<Longrightarrow>
   \<exists>L. s' = s\<lparr>ledger := L\<rparr> \<and> dom L = dom (ledger s)"
proof (induction ls arbitrary: s)
  case Nil
  then have "s' = s\<lparr>ledger := ledger s\<rparr>" by simp
  then show ?case by blast
next
  case (Cons l ls)
  obtain frm t where l: "l = (frm, t)" by (cases l)
  from Cons.prems l obtain s1 where
    one: "transfer_tx config p ctx frm t s = Inr s1" and
    rest: "run_legs config p ctx ls s1 = Inr s'"
    by (cases "transfer_tx config p ctx frm t s") simp_all
  from transfer_tx_frame [OF one] obtain L1 where
    s1: "s1 = s\<lparr>ledger := L1\<rparr>" and d1: "dom L1 = dom (ledger s)" by blast
  from Cons.IH [OF rest] obtain L where
    s': "s' = s1\<lparr>ledger := L\<rparr>" and d: "dom L = dom (ledger s1)" by blast
  from s1 s' have "s' = s\<lparr>ledger := L\<rparr>" by simp
  moreover from s1 d d1 have "dom L = dom (ledger s)" by simp
  ultimately show ?case by blast
qed

lemma run_legs_append:
  "run_legs config p ctx (xs @ ys) s =
     (case run_legs config p ctx xs s of
        Inl e \<Rightarrow> Inl e
      | Inr s' \<Rightarrow> run_legs config p ctx ys s')"
  by (induction xs arbitrary: s) (auto split: sum.splits)

lemma transfer_txs_run_legs:
  "transfer_txs config p ctx frm ts s = run_legs config p ctx (map (Pair frm) ts) s"
  by (induction ts arbitrary: s) (auto split: sum.splits)

lemma transfer_run_legs:
  "transfer config p ctx batch s = run_legs config p ctx (legs_of batch) s"
  by (induction batch arbitrary: s)
     (auto simp add: run_legs_append transfer_txs_run_legs split: sum.splits)

lemma transfer_frame:
  "transfer config p ctx batch s = Inr s' \<Longrightarrow>
   \<exists>L. s' = s\<lparr>ledger := L\<rparr> \<and> dom L = dom (ledger s)"
  by (simp add: transfer_run_legs run_legs_frame)

lemma update_operator_frame:
  "update_operator config p ctx u s = Inr s' \<Longrightarrow> \<exists>ops. s' = s\<lparr>operators := ops\<rparr>"
  by (cases u) (auto simp add: update_operator_def split: if_splits)

lemma update_operators_loop_frame:
  "update_operators_loop config p ctx us s = Inr s' \<Longrightarrow> \<exists>ops. s' = s\<lparr>operators := ops\<rparr>"
proof (induction us arbitrary: s)
  case Nil
  then have "s' = s\<lparr>operators := operators s\<rparr>" by simp
  then show ?case by blast
next
  case (Cons u us)
  from Cons.prems obtain s1 where
    one: "update_operator config p ctx u s = Inr s1" and
    rest: "update_operators_loop config p ctx us s1 = Inr s'"
    by (cases "update_operator config p ctx u s") simp_all
  from update_operator_frame [OF one] obtain o1 where s1: "s1 = s\<lparr>operators := o1\<rparr>" by blast
  from Cons.IH [OF rest] obtain ops where "s' = s1\<lparr>operators := ops\<rparr>" by blast
  with s1 have "s' = s\<lparr>operators := ops\<rparr>" by simp
  then show ?case by blast
qed

lemma update_operators_frame:
  "update_operators config p ctx us s = Inr s' \<Longrightarrow> \<exists>ops. s' = s\<lparr>operators := ops\<rparr>"
  by (auto simp add: update_operators_def update_operators_loop_frame split: if_splits)

lemma mint_frame:
  assumes "mint p ctx amt s = Inr s'"
  shows "\<exists>L H. s' = s\<lparr>ledger := L, hashes := H, all_tokens := all_tokens s + nat amt\<rparr> \<and>
     (\<forall>i. L i = (if all_tokens s \<le> i \<and> i < all_tokens s + nat amt
                  then Some (sender ctx) else ledger s i)) \<and>
     (\<forall>i. H i = (if all_tokens s \<le> i \<and> i < all_tokens s + nat amt
                  then Some (keccak p (pack_mint p (now ctx, sender ctx, i))) else hashes s i))"
proof -
  from mint_Inr_pre [OF assms] have pre: "0 < amt" "\<not> paused s"
    "amount ctx = price s * nat amt" "all_tokens s + nat amt \<le> max_editions s"
    by simp_all
  from mint_ok [OF pre, of p] assms show ?thesis by auto
qed

text \<open>The storage a call leaves, entry point by entry point.\<close>

lemma storage_after_simps:
  "storage_after config p ctx (Transfer b) s =
     (case transfer config p ctx b s of Inl e \<Rightarrow> s | Inr s' \<Rightarrow> s')"
  "storage_after config p ctx (Balance_of rs cb) s = s"
  "storage_after config p ctx (Update_operators us) s =
     (case update_operators config p ctx us s of Inl e \<Rightarrow> s | Inr s' \<Rightarrow> s')"
  "storage_after config p ctx (Set_mint_parameters pr me) s =
     (case set_mint_parameters ctx pr me s of Inl e \<Rightarrow> s | Inr s' \<Rightarrow> s')"
  "storage_after config p ctx (Set_administrator adm) s =
     (case set_administrator ctx adm s of Inl e \<Rightarrow> s | Inr s' \<Rightarrow> s')"
  "storage_after config p ctx (Set_pause pa) s =
     (case set_pause ctx pa s of Inl e \<Rightarrow> s | Inr s' \<Rightarrow> s')"
  "storage_after config p ctx Lock s =
     (case lock ctx s of Inl e \<Rightarrow> s | Inr s' \<Rightarrow> s')"
  "storage_after config p ctx (Mint amt) s =
     (case mint p ctx amt s of Inl e \<Rightarrow> s | Inr s' \<Rightarrow> s')"
  "storage_after config p ctx (Set_script scr) s =
     (case set_script ctx scr s of Inl e \<Rightarrow> s | Inr s' \<Rightarrow> s')"
  "storage_after config p ctx (Set_base_uri bu) s =
     (case set_base_uri ctx bu s of Inl e \<Rightarrow> s | Inr s' \<Rightarrow> s')"
  "storage_after config p ctx (Transfer_mutez d mu) s = s"
  by (simp_all add: storage_after_def no_ops_def balance_of_def mutez_transfer_def
        split: sum.splits)

text \<open>Every call leaves the storage as it was but for the fields its entry point
  assigns; \<open>locked\<close> is assigned by \<^verbatim>\<open>lock\<close> alone, and only to \<open>True\<close>.\<close>

lemma storage_after_locked:
  "locked s \<Longrightarrow> locked (storage_after config p ctx c s)"
proof (cases c)
  case (Transfer b)
  then show "locked s \<Longrightarrow> ?thesis"
    by (auto simp add: storage_after_simps split: sum.splits dest: transfer_frame)
next
  case (Update_operators us)
  then show "locked s \<Longrightarrow> ?thesis"
    by (auto simp add: storage_after_simps split: sum.splits dest: update_operators_frame)
next
  case (Mint amt)
  then show "locked s \<Longrightarrow> ?thesis"
    by (auto simp add: storage_after_simps split: sum.splits dest!: mint_frame)
qed (auto simp add: storage_after_simps set_mint_parameters_def set_administrator_def
       set_pause_def lock_def set_script_def set_base_uri_def split: sum.splits if_splits)

lemma run_calls_locked:
  "locked s \<Longrightarrow> locked (run_calls config p cs s)"
  by (induction cs arbitrary: s) (auto simp add: storage_after_locked)

lemma mint_registry:
  assumes inv: "registry_inv s" and m: "mint p ctx amt s = Inr s'"
  shows "registry_inv s' \<and> (\<forall>i h. hashes s i = Some h \<longrightarrow> hashes s' i = Some h)"
proof -
  from mint_frame [OF m] obtain L H where
    s': "s' = s\<lparr>ledger := L, hashes := H, all_tokens := all_tokens s + nat amt\<rparr>"
    and L: "\<forall>i. L i = (if all_tokens s \<le> i \<and> i < all_tokens s + nat amt
                  then Some (sender ctx) else ledger s i)"
    and H: "\<forall>i. H i = (if all_tokens s \<le> i \<and> i < all_tokens s + nat amt
                  then Some (keccak p (pack_mint p (now ctx, sender ctx, i))) else hashes s i)"
    by blast
  from inv have dl: "\<And>i. (ledger s i \<noteq> None) = (i < all_tokens s)"
    and dh: "\<And>i. (hashes s i \<noteq> None) = (i < all_tokens s)"
    by (auto simp add: registry_inv_def dom_def set_eq_iff)
  have "\<And>i. (L i \<noteq> None) = (i < all_tokens s + nat amt)"
    using L dl by auto
  then have 1: "dom L = {..< all_tokens s + nat amt}" by (auto simp add: dom_def)
  have "\<And>i. (H i \<noteq> None) = (i < all_tokens s + nat amt)"
    using H dh by auto
  then have 2: "dom H = {..< all_tokens s + nat amt}" by (auto simp add: dom_def)
  have 3: "\<forall>i h. hashes s i = Some h \<longrightarrow> H i = Some h"
  proof (intro allI impI)
    fix i h assume "hashes s i = Some h"
    with dh [of i] have "i < all_tokens s" by simp
    with H \<open>hashes s i = Some h\<close> show "H i = Some h" by simp
  qed
  from 1 2 3 s' show ?thesis by (simp add: registry_inv_def)
qed

lemma storage_after_registry:
  assumes inv: "registry_inv s"
  shows "registry_inv (storage_after config p ctx c s) \<and>
         (\<forall>i h. hashes s i = Some h \<longrightarrow> hashes (storage_after config p ctx c s) i = Some h)"
proof (cases c)
  case (Transfer b)
  show ?thesis
  proof (cases "transfer config p ctx b s")
    case (Inl e)
    with Transfer inv show ?thesis by (simp add: storage_after_simps)
  next
    case (Inr s')
    from transfer_frame [OF Inr] obtain L where
      "s' = s\<lparr>ledger := L\<rparr>" and "dom L = dom (ledger s)" by blast
    with Transfer Inr inv show ?thesis
      by (simp add: storage_after_simps registry_inv_def)
  qed
next
  case (Update_operators us)
  show ?thesis
  proof (cases "update_operators config p ctx us s")
    case (Inl e)
    with Update_operators inv show ?thesis by (simp add: storage_after_simps)
  next
    case (Inr s')
    from update_operators_frame [OF Inr] obtain ops where "s' = s\<lparr>operators := ops\<rparr>"
      by blast
    with Update_operators Inr inv show ?thesis
      by (simp add: storage_after_simps registry_inv_def)
  qed
next
  case (Mint amt)
  show ?thesis
  proof (cases "mint p ctx amt s")
    case (Inl e)
    with Mint inv show ?thesis by (simp add: storage_after_simps)
  next
    case (Inr s')
    with Mint mint_registry [OF inv Inr] show ?thesis by (simp add: storage_after_simps)
  qed
qed (use inv in \<open>simp_all add: storage_after_simps registry_inv_def set_mint_parameters_def
       set_administrator_def set_pause_def lock_def set_script_def set_base_uri_def\<close>)

lemma run_calls_registry:
  "registry_inv s \<Longrightarrow>
   registry_inv (run_calls config p cs s) \<and>
   (\<forall>i h. hashes s i = Some h \<longrightarrow> hashes (run_calls config p cs s) i = Some h)"
proof (induction cs arbitrary: s)
  case Nil
  then show ?case by simp
next
  case (Cons a cs)
  obtain ctx c where a: "a = (ctx, c)" by (cases a)
  from storage_after_registry [OF Cons.prems, of config p ctx c]
  have 1: "registry_inv (storage_after config p ctx c s)"
    and 2: "\<forall>i h. hashes s i = Some h \<longrightarrow> hashes (storage_after config p ctx c s) i = Some h"
    by simp_all
  from Cons.IH [OF 1] 2 a show ?case by simp
qed

lemma reachable_registry: "reachable config p s \<Longrightarrow> registry_inv s"
proof (induction rule: reachable.induct)
  case (reachable_init md admin)
  show ?case by (simp add: registry_inv_def init_storage_def)
next
  case (reachable_call s ctx c)
  then show ?case by (simp add: storage_after_registry)
qed

subsection \<open>The example deployment, evaluated\<close>

lemma fresh_fields:
  "ledger fresh = Map.empty" "hashes fresh = Map.empty" "operators fresh = Map.empty"
  "all_tokens fresh = 0" "price fresh = 1000000" "max_editions fresh = 4096"
  "paused fresh = False" "locked fresh = False" "administrator fresh = admin_addr"
  by (simp_all add: fresh_def init_storage_def env_config_def)

lemma minted_eq:
  "minted = fresh\<lparr>ledger := [0 \<mapsto> alice],
                  hashes := [0 \<mapsto> keccak toy_primitives (pack_mint toy_primitives (0, alice, 0))],
                  all_tokens := 1\<rparr>"
proof -
  have "mint_loop toy_primitives (call_by alice 1000000) (int (Suc 0)) fresh =
     Inr (fresh\<lparr>ledger := [0 \<mapsto> alice],
                  hashes := [0 \<mapsto> keccak toy_primitives (pack_mint toy_primitives (0, alice, 0))],
                  all_tokens := 1\<rparr>)"
    by (simp only: mint_loop_Suc mint_loop_0)
       (simp add: mint_step_def token_id_set_add_def fresh_fields call_by_def Let_def)
  then show ?thesis
    by (simp add: minted_def storage_after_simps mint_def is_paused_def as_nat_def
          fresh_fields call_by_def)
qed

lemma minted_fields:
  "ledger minted = [0 \<mapsto> alice]" "contains (hashes minted) 0" "operators minted = Map.empty"
  "all_tokens minted = 1" "price minted = 1000000" "max_editions minted = 4096"
  "paused minted = False" "locked minted = False" "administrator minted = admin_addr"
  by (simp_all add: minted_eq fresh_fields contains_def)

lemma minted_locked_eq: "minted_locked = minted\<lparr>locked := True\<rparr>"
  by (simp add: minted_locked_def storage_after_simps lock_def is_administrator_def
        minted_fields call_by_def)

lemma delegated_eq: "delegated = minted\<lparr>operators := [Record_key alice bob 0 \<mapsto> ()]\<rparr>"
  by (simp add: delegated_def storage_after_simps update_operators_def update_operator_def
        operator_set_add_def make_key_def env_config_def bob_for_alice_def minted_fields call_by_def)

lemma reachable_fresh: "reachable env_config toy_primitives fresh"
  unfolding fresh_def by (rule reachable_init)

lemma reachable_minted: "reachable env_config toy_primitives minted"
  unfolding minted_def by (rule reachable_call [OF reachable_fresh])

subsection \<open>The registry invariant\<close>

text \<open>
  \<^bold>\<open>Claim C3.\<close> In every reachable state the ledger and the hashes have the same key set,
  the range \<open>[0, all_tokens)\<close>. Every call, whatever its entry point, context and
  parameter, keeps this invariant; a commitment stored for an id is the same after any
  call and after any sequence of calls; and a transfer that succeeds leaves the hashes and
  the counter as they were, and the key set of the ledger too: it assigns owners only.
\<close>

theorem registry_invariant:
  "(reachable config p s \<longrightarrow>
      dom (ledger s) = {..< all_tokens s} \<and> dom (hashes s) = {..< all_tokens s}) \<and>
   (registry_inv s \<longrightarrow>
      registry_inv (storage_after config p ctx c s) \<and>
      registry_inv (run_calls config p cs s) \<and>
      (\<forall>i h. hashes s i = Some h \<longrightarrow>
         hashes (storage_after config p ctx c s) i = Some h \<and>
         hashes (run_calls config p cs s) i = Some h)) \<and>
   (\<forall>s'. transfer config p ctx b s = Inr s' \<longrightarrow>
      hashes s' = hashes s \<and> all_tokens s' = all_tokens s \<and> dom (ledger s') = dom (ledger s))"
proof (intro conjI impI allI)
  assume "reachable config p s"
  then have "registry_inv s" by (rule reachable_registry)
  then show "dom (ledger s) = {..< all_tokens s}" "dom (hashes s) = {..< all_tokens s}"
    by (simp_all add: registry_inv_def)
next
  assume inv: "registry_inv s"
  from storage_after_registry [OF inv]
  show "registry_inv (storage_after config p ctx c s)" by blast
  from run_calls_registry [OF inv]
  show "registry_inv (run_calls config p cs s)" by blast
  fix i h assume "hashes s i = Some h"
  with storage_after_registry [OF inv, of config p ctx c]
  show "hashes (storage_after config p ctx c s) i = Some h" by blast
  from \<open>hashes s i = Some h\<close> run_calls_registry [OF inv, of config p cs]
  show "hashes (run_calls config p cs s) i = Some h" by blast
next
  fix s' assume "transfer config p ctx b s = Inr s'"
  from transfer_frame [OF this] obtain L where
    "s' = s\<lparr>ledger := L\<rparr>" and "dom L = dom (ledger s)" by blast
  then show "hashes s' = hashes s" "all_tokens s' = all_tokens s"
    "dom (ledger s') = dom (ledger s)" by simp_all
qed

text \<open>The contract after Alice has minted token 0 is reachable: both key sets are
  \<open>{0}\<close>. Alice then gives the token to Robert and mints another one: the commitment of
  token 0 is the one of its mint.\<close>

theorem registry_invariant_witness:
  "reachable env_config toy_primitives minted \<and>
   all_tokens minted = 1 \<and>
   dom (ledger minted) = {..< 1} \<and> dom (hashes minted) = {..< 1} \<and>
   hashes (run_calls env_config toy_primitives
      [(call_by alice 0, Transfer [\<lparr>tr_from = alice, tr_txs = [leg bob 0 1]\<rparr>]),
       (call_by alice 1000000, Mint 1)] minted) 0
     = Some (keccak toy_primitives (pack_mint toy_primitives (0, alice, 0)))"
proof -
  let ?cs = "[(call_by alice 0, Transfer [\<lparr>tr_from = alice, tr_txs = [leg bob 0 1]\<rparr>]),
       (call_by alice 1000000, Mint 1)]"
  note r = reachable_minted
  have inv: "registry_inv minted"
    by (rule reachable_registry [OF reachable_minted])
  have h: "hashes minted 0 = Some (keccak toy_primitives (pack_mint toy_primitives (0, alice, 0)))"
    by (simp add: minted_eq)
  from registry_invariant [of env_config toy_primitives minted _ _ ?cs] r
  have "dom (ledger minted) = {..< all_tokens minted}" "dom (hashes minted) = {..< all_tokens minted}"
    by blast+
  moreover from registry_invariant [of env_config toy_primitives minted _ _ ?cs] inv h
  have "hashes (run_calls env_config toy_primitives ?cs minted) 0
     = Some (keccak toy_primitives (pack_mint toy_primitives (0, alice, 0)))"
    by blast
  ultimately show ?thesis using r by (simp add: minted_fields)
qed

subsection \<open>Governance\<close>

text \<open>
  \<^bold>\<open>Claim C5.\<close> \<^verbatim>\<open>set_mint_parameters(price, max_editions)\<close> makes its checks in this order
  and the first one violated names the failure: \<^verbatim>\<open>FA2_NOT_ADMIN\<close> unless the caller is the
  administrator; \<^verbatim>\<open>FA2_SALE_STARTED\<close> unless \<open>all_tokens \<le> 1\<close> (one token may have been
  minted: the threshold is not \<open>all_tokens = 0\<close>); \<^verbatim>\<open>FA2_BAD_QUANTITY\<close> when the new
  \<open>max_editions\<close> is below \<open>all_tokens\<close>. Otherwise it overwrites both \<open>price\<close> and
  \<open>max_editions\<close>, and nothing else.
\<close>

theorem set_mint_parameters_spec:
  "(sender ctx \<noteq> administrator s \<longrightarrow> set_mint_parameters ctx pr me s = Inl NOT_ADMIN) \<and>
   (sender ctx = administrator s \<and> 1 < all_tokens s \<longrightarrow>
      set_mint_parameters ctx pr me s = Inl SALE_STARTED) \<and>
   (sender ctx = administrator s \<and> all_tokens s \<le> 1 \<and> me < all_tokens s \<longrightarrow>
      set_mint_parameters ctx pr me s = Inl BAD_QUANTITY) \<and>
   (sender ctx = administrator s \<and> all_tokens s \<le> 1 \<and> all_tokens s \<le> me \<longrightarrow>
      set_mint_parameters ctx pr me s = Inr (s\<lparr>max_editions := me, price := pr\<rparr>))"
  by (auto simp add: set_mint_parameters_def is_administrator_def)

text \<open>The boundary: with no token and with one token minted the administrator sets the
  parameters; with two tokens the sale has started; Alice is refused; and a ceiling of 0
  with one token minted is a bad quantity.\<close>

theorem set_mint_parameters_spec_witness:
  "set_mint_parameters (call_by admin_addr 0) 5 10 fresh
     = Inr (fresh\<lparr>max_editions := 10, price := 5\<rparr>) \<and>
   set_mint_parameters (call_by admin_addr 0) 5 10 minted
     = Inr (minted\<lparr>max_editions := 10, price := 5\<rparr>) \<and>
   set_mint_parameters (call_by admin_addr 0) 5 10 (minted\<lparr>all_tokens := 2\<rparr>)
     = Inl SALE_STARTED \<and>
   set_mint_parameters (call_by alice 0) 5 10 fresh = Inl NOT_ADMIN \<and>
   set_mint_parameters (call_by admin_addr 0) 5 0 minted = Inl BAD_QUANTITY"
proof -
  have adm: "sender (call_by admin_addr 0) = admin_addr" by (simp add: call_by_def)
  have al: "sender (call_by alice 0) \<noteq> admin_addr"
    by (simp add: call_by_def alice_def admin_addr_def)
  have "set_mint_parameters (call_by admin_addr 0) 5 10 fresh
     = Inr (fresh\<lparr>max_editions := 10, price := 5\<rparr>)"
    using set_mint_parameters_spec [of "call_by admin_addr 0" fresh 5 10] adm
    by (simp add: fresh_fields)
  moreover have "set_mint_parameters (call_by admin_addr 0) 5 10 minted
     = Inr (minted\<lparr>max_editions := 10, price := 5\<rparr>)"
    using set_mint_parameters_spec [of "call_by admin_addr 0" minted 5 10] adm
    by (simp add: minted_fields)
  moreover have "set_mint_parameters (call_by admin_addr 0) 5 10 (minted\<lparr>all_tokens := 2\<rparr>)
     = Inl SALE_STARTED"
    using set_mint_parameters_spec [of "call_by admin_addr 0" "minted\<lparr>all_tokens := 2\<rparr>" 5 10] adm
    by (simp add: minted_fields)
  moreover have "set_mint_parameters (call_by alice 0) 5 10 fresh = Inl NOT_ADMIN"
    using set_mint_parameters_spec [of "call_by alice 0" fresh 5 10] al
    by (simp add: fresh_fields)
  moreover have "set_mint_parameters (call_by admin_addr 0) 5 0 minted = Inl BAD_QUANTITY"
    using set_mint_parameters_spec [of "call_by admin_addr 0" minted 5 0] adm
    by (simp add: minted_fields)
  ultimately show ?thesis by blast
qed

text \<open>
  \<^bold>\<open>Claim C6.\<close> The lock is a one-way latch. When a call of \<^verbatim>\<open>lock\<close> succeeds, its caller
  is the administrator, and after any sequence of later calls, whatever their entry points,
  callers and parameters, \<open>locked\<close> is still true and \<^verbatim>\<open>set_script\<close> and \<^verbatim>\<open>set_base_uri\<close> fail
  with \<^verbatim>\<open>FA2_LOCKED\<close> for every caller.
\<close>

theorem lock_is_one_way:
  assumes "entry_point config p ctx0 Lock s0 = Inr (ops, s1)"
  shows "sender ctx0 = administrator s0 \<and>
         locked s1 \<and>
         locked (run_calls config p cs s1) \<and>
         entry_point config p ctx (Set_script scr) (run_calls config p cs s1) = Inl LOCKED \<and>
         entry_point config p ctx (Set_base_uri bu) (run_calls config p cs s1) = Inl LOCKED"
proof -
  from assms have a: "sender ctx0 = administrator s0" and l: "locked s1"
    by (auto simp add: no_ops_def lock_def is_administrator_def split: if_splits)
  from l have "locked (run_calls config p cs s1)" by (rule run_calls_locked)
  with a l show ?thesis
    by (simp add: no_ops_def set_script_def set_base_uri_def is_locked_def)
qed

text \<open>The administrator locks the contract after the first mint. Alice then mints again
  and the administrator pauses, unpauses and hands the administration to Robert: the
  contract is still locked and Robert, now the administrator, cannot set the script.\<close>

theorem lock_is_one_way_witness:
  "entry_point env_config toy_primitives (call_by admin_addr 0) Lock minted
     = Inr ([], minted\<lparr>locked := True\<rparr>) \<and>
   locked (run_calls env_config toy_primitives
     [(call_by alice 1000000, Mint 1), (call_by admin_addr 0, Set_pause True),
      (call_by admin_addr 0, Set_pause False), (call_by admin_addr 0, Set_administrator bob)]
     (minted\<lparr>locked := True\<rparr>)) \<and>
   entry_point env_config toy_primitives (call_by bob 0) (Set_script ''art'')
     (run_calls env_config toy_primitives
     [(call_by alice 1000000, Mint 1), (call_by admin_addr 0, Set_pause True),
      (call_by admin_addr 0, Set_pause False), (call_by admin_addr 0, Set_administrator bob)]
     (minted\<lparr>locked := True\<rparr>)) = Inl LOCKED"
proof -
  have l: "entry_point env_config toy_primitives (call_by admin_addr 0) Lock minted
     = Inr ([], minted\<lparr>locked := True\<rparr>)"
    by (simp add: no_ops_def lock_def is_administrator_def minted_fields call_by_def)
  from lock_is_one_way [OF l] l show ?thesis by blast
qed

text \<open>
  \<^bold>\<open>Claim C10.\<close> In \<^verbatim>\<open>set_script\<close> and \<^verbatim>\<open>set_base_uri\<close> the lock is checked before the
  administrator: on a locked contract both fail with \<^verbatim>\<open>FA2_LOCKED\<close> for every caller, the
  administrator or not, and so never with \<^verbatim>\<open>FA2_NOT_ADMIN\<close>.
\<close>

theorem locked_before_admin:
  assumes "locked s"
  shows "set_script ctx scr s = Inl LOCKED \<and> set_base_uri ctx bu s = Inl LOCKED \<and>
         set_script ctx scr s \<noteq> Inl NOT_ADMIN \<and> set_base_uri ctx bu s \<noteq> Inl NOT_ADMIN"
  using assms by (simp add: set_script_def set_base_uri_def is_locked_def)

text \<open>Alice is not the administrator: on the locked contract her calls fail with
  \<^verbatim>\<open>FA2_LOCKED\<close>, on the unlocked one with \<^verbatim>\<open>FA2_NOT_ADMIN\<close>.\<close>

theorem locked_before_admin_witness:
  "locked minted_locked \<and> sender (call_by alice 0) \<noteq> administrator minted_locked \<and>
   set_script (call_by alice 0) ''art'' minted_locked = Inl LOCKED \<and>
   set_base_uri (call_by alice 0) ''ipfs://'' minted_locked = Inl LOCKED \<and>
   set_script (call_by alice 0) ''art'' minted = Inl NOT_ADMIN"
proof -
  have l: "locked minted_locked" by (simp add: minted_locked_eq)
  have a: "sender (call_by alice 0) \<noteq> administrator minted_locked"
    by (simp add: minted_locked_eq minted_fields call_by_def alice_def admin_addr_def)
  have n: "set_script (call_by alice 0) ''art'' minted = Inl NOT_ADMIN"
    by (simp add: set_script_def is_locked_def is_administrator_def minted_fields call_by_def
          alice_def admin_addr_def)
  from locked_before_admin [OF l] l a n show ?thesis by blast
qed

subsection \<open>Transfers\<close>

lemma transfer_tx_one_iff:
  "tx_amount t = 1 \<Longrightarrow>
   (\<exists>s'. transfer_tx config p ctx frm t s = Inr s') \<longleftrightarrow>
     sender_allowed config p ctx frm (tx_token_id t) s \<and>
     contains (hashes s) (tx_token_id t) \<and>
     ledger s (tx_token_id t) = Some frm"
  by (auto simp add: transfer_tx_def sender_allowed_def Let_def split: option.splits)

lemma transfer_tx_one_result:
  "tx_amount t = 1 \<Longrightarrow> transfer_tx config p ctx frm t s = Inr s' \<Longrightarrow>
   s' = s\<lparr>ledger := (ledger s)(tx_token_id t \<mapsto> tx_to t)\<rparr>"
  by (auto simp add: transfer_tx_def Let_def split: option.splits if_splits)

lemma transfer_tx_errors:
  "\<not> sender_allowed config p ctx frm (tx_token_id t) s \<Longrightarrow>
     transfer_tx config p ctx frm t s = Inl NOT_OPERATOR"
  "sender_allowed config p ctx frm (tx_token_id t) s \<Longrightarrow> \<not> contains (hashes s) (tx_token_id t) \<Longrightarrow>
     transfer_tx config p ctx frm t s = Inl TOKEN_UNDEFINED"
  "sender_allowed config p ctx frm (tx_token_id t) s \<Longrightarrow> contains (hashes s) (tx_token_id t) \<Longrightarrow>
     1 < tx_amount t \<Longrightarrow> transfer_tx config p ctx frm t s = Inl INSUFFICIENT_BALANCE"
  "sender_allowed config p ctx frm (tx_token_id t) s \<Longrightarrow> contains (hashes s) (tx_token_id t) \<Longrightarrow>
     tx_amount t = 1 \<Longrightarrow> ledger s (tx_token_id t) = Some cur \<Longrightarrow> cur \<noteq> frm \<Longrightarrow>
     transfer_tx config p ctx frm t s = Inl INSUFFICIENT_BALANCE"
  by (auto simp add: transfer_tx_def sender_allowed_def Let_def)

lemma transfer_tx_zero:
  "tx_amount t = 0 \<Longrightarrow> sender_allowed config p ctx frm (tx_token_id t) s \<Longrightarrow>
   contains (hashes s) (tx_token_id t) \<Longrightarrow> transfer_tx config p ctx frm t s = Inr s"
  "tx_amount t = 0 \<Longrightarrow> transfer_tx config p ctx frm t s = Inr s' \<Longrightarrow> s' = s"
  by (auto simp add: transfer_tx_def sender_allowed_def Let_def split: if_splits)

lemma run_legs_fails_at:
  "run_legs config p ctx pre s = Inr s1 \<Longrightarrow> transfer_tx config p ctx frm t s1 = Inl e \<Longrightarrow>
   run_legs config p ctx (pre @ (frm, t) # post) s = Inl e"
  by (simp add: run_legs_append)

text \<open>
  \<^bold>\<open>Claim C2.\<close> A transfer batch is processed leg by leg in input order, each leg on the
  storage the legs before it have left. Every leg makes its checks in the order
  authorization, existence, quantity, ownership, and the first one violated names the
  failure: \<^verbatim>\<open>FA2_NOT_OPERATOR\<close>, \<^verbatim>\<open>FA2_TOKEN_UNDEFINED\<close>, \<^verbatim>\<open>FA2_INSUFFICIENT_BALANCE\<close>.
  A leg of quantity 1 succeeds if and only if the caller is allowed (it is the declared
  \<^verbatim>\<open>from\<close>, or an operator for \<^verbatim>\<open>(from, caller, id)\<close>, or the contract itself when
  self-transfer is enabled), the token exists and its owner is the declared \<^verbatim>\<open>from\<close>; the
  owner of the token is then the \<^verbatim>\<open>to\<close> of the leg and nothing else has changed. A leg of
  quantity above 1 fails, with \<^verbatim>\<open>FA2_INSUFFICIENT_BALANCE\<close> once it is allowed and the
  token exists. A leg of quantity 0 that passes the first two checks succeeds and changes
  nothing. When a leg fails, the whole call fails with the error of that leg, and the
  storage after a failed call is the storage before it, whatever the legs before the
  failing one had assigned.
\<close>

theorem transfer_batch:
  "transfer config p ctx batch s = run_legs config p ctx (legs_of batch) s \<and>
   (tx_amount t = 1 \<longrightarrow>
      ((\<exists>s'. transfer_tx config p ctx frm t s0 = Inr s') \<longleftrightarrow>
         sender_allowed config p ctx frm (tx_token_id t) s0 \<and>
         contains (hashes s0) (tx_token_id t) \<and>
         ledger s0 (tx_token_id t) = Some frm) \<and>
      (\<forall>s'. transfer_tx config p ctx frm t s0 = Inr s' \<longrightarrow>
         s' = s0\<lparr>ledger := (ledger s0)(tx_token_id t \<mapsto> tx_to t)\<rparr>)) \<and>
   (\<not> sender_allowed config p ctx frm (tx_token_id t) s0 \<longrightarrow>
      transfer_tx config p ctx frm t s0 = Inl NOT_OPERATOR) \<and>
   (sender_allowed config p ctx frm (tx_token_id t) s0 \<and>
    \<not> contains (hashes s0) (tx_token_id t) \<longrightarrow>
      transfer_tx config p ctx frm t s0 = Inl TOKEN_UNDEFINED) \<and>
   (sender_allowed config p ctx frm (tx_token_id t) s0 \<and>
    contains (hashes s0) (tx_token_id t) \<and> 1 < tx_amount t \<longrightarrow>
      transfer_tx config p ctx frm t s0 = Inl INSUFFICIENT_BALANCE) \<and>
   (sender_allowed config p ctx frm (tx_token_id t) s0 \<and>
    contains (hashes s0) (tx_token_id t) \<and> tx_amount t = 1 \<and>
    ledger s0 (tx_token_id t) = Some cur \<and> cur \<noteq> frm \<longrightarrow>
      transfer_tx config p ctx frm t s0 = Inl INSUFFICIENT_BALANCE) \<and>
   (1 < tx_amount t \<longrightarrow> (\<exists>e. transfer_tx config p ctx frm t s0 = Inl e)) \<and>
   (tx_amount t = 0 \<longrightarrow>
      (sender_allowed config p ctx frm (tx_token_id t) s0 \<and>
       contains (hashes s0) (tx_token_id t) \<longrightarrow> transfer_tx config p ctx frm t s0 = Inr s0) \<and>
      (\<forall>s'. transfer_tx config p ctx frm t s0 = Inr s' \<longrightarrow> s' = s0)) \<and>
   (legs_of batch = pre @ (frm, t) # post \<and>
    run_legs config p ctx pre s = Inr s0 \<and>
    transfer_tx config p ctx frm t s0 = Inl e \<longrightarrow>
      transfer config p ctx batch s = Inl e) \<and>
   (\<forall>e. transfer config p ctx batch s = Inl e \<longrightarrow>
      entry_point config p ctx (Transfer batch) s = Inl e \<and>
      storage_after config p ctx (Transfer batch) s = s)"
proof (intro conjI impI allI)
  show "transfer config p ctx batch s = run_legs config p ctx (legs_of batch) s"
    by (rule transfer_run_legs)
next
  assume "tx_amount t = 1"
  then show "(\<exists>s'. transfer_tx config p ctx frm t s0 = Inr s') \<longleftrightarrow>
         sender_allowed config p ctx frm (tx_token_id t) s0 \<and>
         contains (hashes s0) (tx_token_id t) \<and>
         ledger s0 (tx_token_id t) = Some frm"
    by (rule transfer_tx_one_iff)
next
  fix s' assume "tx_amount t = 1" "transfer_tx config p ctx frm t s0 = Inr s'"
  then show "s' = s0\<lparr>ledger := (ledger s0)(tx_token_id t \<mapsto> tx_to t)\<rparr>"
    by (rule transfer_tx_one_result)
next
  assume "\<not> sender_allowed config p ctx frm (tx_token_id t) s0"
  then show "transfer_tx config p ctx frm t s0 = Inl NOT_OPERATOR"
    by (rule transfer_tx_errors)
next
  assume "sender_allowed config p ctx frm (tx_token_id t) s0 \<and>
    \<not> contains (hashes s0) (tx_token_id t)"
  then show "transfer_tx config p ctx frm t s0 = Inl TOKEN_UNDEFINED"
    by (simp add: transfer_tx_errors)
next
  assume "sender_allowed config p ctx frm (tx_token_id t) s0 \<and>
    contains (hashes s0) (tx_token_id t) \<and> 1 < tx_amount t"
  then show "transfer_tx config p ctx frm t s0 = Inl INSUFFICIENT_BALANCE"
    by (simp add: transfer_tx_errors)
next
  assume "sender_allowed config p ctx frm (tx_token_id t) s0 \<and>
    contains (hashes s0) (tx_token_id t) \<and> tx_amount t = 1 \<and>
    ledger s0 (tx_token_id t) = Some cur \<and> cur \<noteq> frm"
  then show "transfer_tx config p ctx frm t s0 = Inl INSUFFICIENT_BALANCE"
    by (simp add: transfer_tx_errors)
next
  assume "1 < tx_amount t"
  then show "\<exists>e. transfer_tx config p ctx frm t s0 = Inl e"
    by (simp add: transfer_tx_def Let_def)
next
  assume "tx_amount t = 0"
    "sender_allowed config p ctx frm (tx_token_id t) s0 \<and> contains (hashes s0) (tx_token_id t)"
  then show "transfer_tx config p ctx frm t s0 = Inr s0"
    by (simp add: transfer_tx_zero)
next
  fix s' assume "tx_amount t = 0" "transfer_tx config p ctx frm t s0 = Inr s'"
  then show "s' = s0" by (rule transfer_tx_zero)
next
  assume "legs_of batch = pre @ (frm, t) # post \<and>
    run_legs config p ctx pre s = Inr s0 \<and>
    transfer_tx config p ctx frm t s0 = Inl e"
  then show "transfer config p ctx batch s = Inl e"
    by (simp add: transfer_run_legs run_legs_fails_at)
next
  fix e' assume "transfer config p ctx batch s = Inl e'"
  then show "entry_point config p ctx (Transfer batch) s = Inl e'"
    "storage_after config p ctx (Transfer batch) s = s"
    by (simp_all add: storage_after_simps no_ops_def)
qed

text \<open>Alice owns token 0. Her batch of one leg gives it to Robert. Her batch of that leg
  followed by a leg from Robert, whom she is not an operator of, fails with
  \<^verbatim>\<open>FA2_NOT_OPERATOR\<close> although its first leg has succeeded, and Alice still owns token 0.\<close>

theorem transfer_batch_witness:
  "transfer env_config toy_primitives (call_by alice 0)
       [\<lparr>tr_from = alice, tr_txs = [leg bob 0 1]\<rparr>] minted
     = Inr (minted\<lparr>ledger := [0 \<mapsto> bob]\<rparr>) \<and>
   transfer_tx env_config toy_primitives (call_by alice 0) alice (leg bob 0 1) minted
     = Inr (minted\<lparr>ledger := [0 \<mapsto> bob]\<rparr>) \<and>
   transfer env_config toy_primitives (call_by alice 0)
       [\<lparr>tr_from = alice, tr_txs = [leg bob 0 1]\<rparr>, \<lparr>tr_from = bob, tr_txs = [leg alice 0 1]\<rparr>]
       minted
     = Inl NOT_OPERATOR \<and>
   ledger (storage_after env_config toy_primitives (call_by alice 0)
       (Transfer [\<lparr>tr_from = alice, tr_txs = [leg bob 0 1]\<rparr>,
                  \<lparr>tr_from = bob, tr_txs = [leg alice 0 1]\<rparr>]) minted) 0
     = Some alice"
proof -
  let ?ctx = "call_by alice 0"
  let ?two = "[\<lparr>tr_from = alice, tr_txs = [leg bob 0 1]\<rparr>, \<lparr>tr_from = bob, tr_txs = [leg alice 0 1]\<rparr>]"
  let ?s1 = "minted\<lparr>ledger := [0 \<mapsto> bob]\<rparr>"
  have ab: "alice \<noteq> bob" by (simp add: alice_def bob_def)
  have q: "tx_amount (leg bob 0 1) = 1" "tx_token_id (leg bob 0 1) = 0" "tx_to (leg bob 0 1) = bob"
    "tx_token_id (leg alice 0 1) = 0"
    by (simp_all add: leg_def)
  have al: "sender_allowed env_config toy_primitives ?ctx alice 0 minted"
    by (simp add: sender_allowed_def call_by_def)
  have nal: "\<not> sender_allowed env_config toy_primitives ?ctx bob 0 ?s1"
    using ab by (simp add: sender_allowed_def call_by_def is_member_def minted_fields env_config_def)
  have ex: "contains (hashes minted) 0" "ledger minted 0 = Some alice"
    by (simp_all add: minted_fields)
  note first = transfer_batch [of env_config toy_primitives ?ctx ?two minted "leg bob 0 1" alice
      minted bob "[]" "[(bob, leg alice 0 1)]" NOT_OPERATOR]
  from first [THEN conjunct2, THEN conjunct1] q al ex
  have "\<exists>s'. transfer_tx env_config toy_primitives ?ctx alice (leg bob 0 1) minted = Inr s'"
    and "\<forall>s'. transfer_tx env_config toy_primitives ?ctx alice (leg bob 0 1) minted = Inr s' \<longrightarrow>
           s' = minted\<lparr>ledger := (ledger minted)(0 \<mapsto> bob)\<rparr>"
    by simp_all
  then have "transfer_tx env_config toy_primitives ?ctx alice (leg bob 0 1) minted
      = Inr (minted\<lparr>ledger := (ledger minted)(0 \<mapsto> bob)\<rparr>)"
    by blast
  then have one: "transfer_tx env_config toy_primitives ?ctx alice (leg bob 0 1) minted = Inr ?s1"
    by (simp add: minted_fields)
  have single: "transfer env_config toy_primitives ?ctx [\<lparr>tr_from = alice, tr_txs = [leg bob 0 1]\<rparr>] minted
      = Inr ?s1"
    using transfer_batch [of env_config toy_primitives ?ctx
        "[\<lparr>tr_from = alice, tr_txs = [leg bob 0 1]\<rparr>]" minted "leg bob 0 1" alice
        minted bob "[]" "[]" NOT_OPERATOR, THEN conjunct1] one
    by simp
  note snd_leg = transfer_batch [of env_config toy_primitives ?ctx ?two minted "leg alice 0 1" bob
      ?s1 bob "[(alice, leg bob 0 1)]" "[]" NOT_OPERATOR]
  from snd_leg [THEN conjunct2, THEN conjunct2, THEN conjunct1] q nal
  have second: "transfer_tx env_config toy_primitives ?ctx bob (leg alice 0 1) ?s1 = Inl NOT_OPERATOR"
    by simp
  have legs: "legs_of ?two = [(alice, leg bob 0 1)] @ (bob, leg alice 0 1) # []" by simp
  have pre: "run_legs env_config toy_primitives ?ctx [(alice, leg bob 0 1)] minted = Inr ?s1"
    using one by simp
  from snd_leg legs pre second
  have fail: "transfer env_config toy_primitives ?ctx ?two minted = Inl NOT_OPERATOR" by blast
  with snd_leg
  have "storage_after env_config toy_primitives ?ctx (Transfer ?two) minted = minted" by blast
  then have "ledger (storage_after env_config toy_primitives ?ctx (Transfer ?two) minted) 0 = Some alice"
    by (simp add: minted_fields)
  with single one fail show ?thesis by simp
qed

subsection \<open>Operators\<close>

lemma remove_absent_operator:
  "\<not> is_member config p ops ow opr tid \<Longrightarrow> operator_set_remove config p ops ow opr tid = ops"
  by (cases "ops (make_key config p ow opr tid)")
     (auto simp add: is_member_def operator_set_remove_def fun_eq_iff)

lemma add_then_remove_operator:
  "operator_set_remove config p (operator_set_add config p ops ow opr tid) ow opr tid =
     operator_set_remove config p ops ow opr tid"
  by (simp add: operator_set_remove_def operator_set_add_def)

lemma not_member_after_remove:
  "\<not> is_member config p (operator_set_remove config p ops ow opr tid) ow opr tid"
  by (simp add: is_member_def operator_set_remove_def)

text \<open>
  \<^bold>\<open>Claim C7\<close>, as stated, fails where the grant is already in the set: the grant changes
  nothing, the revoke removes the triple, and its membership is not the one before the
  grant. Alice has made Robert her operator for token 0; she grants it again and revokes
  it: Robert was an operator before and is none after.
\<close>

theorem grant_revoke_counterexample:
  "is_member env_config toy_primitives (operators delegated) alice bob 0 \<and>
   update_operators env_config toy_primitives (call_by alice 0)
       [add_operator bob_for_alice, remove_operator bob_for_alice] delegated
     = Inr (delegated\<lparr>operators := Map.empty\<rparr>) \<and>
   \<not> is_member env_config toy_primitives
       (operators (delegated\<lparr>operators := Map.empty\<rparr>)) alice bob 0"
  by (simp add: delegated_eq is_member_def make_key_def env_config_def update_operators_def
        update_operator_def operator_set_add_def operator_set_remove_def bob_for_alice_def
        call_by_def)

text \<open>
  \<^bold>\<open>Claim C7, amended.\<close> With operator support configured and the owner of the triple
  calling: revoking a grant that is absent from the operator set succeeds and leaves the
  storage, and so the set, unchanged; a grant immediately followed by a revoke of the same
  triple succeeds and leaves the triple absent from the set, the other triples as they
  were. This is the membership before the grant, and the storage before the grant, when
  the triple was absent then.
\<close>

theorem grant_revoke:
  assumes "support_operator config" and "owner upd = sender ctx"
  shows "(\<not> is_member config p (operators s) (owner upd) (operator upd) (op_token_id upd) \<longrightarrow>
            update_operators config p ctx [remove_operator upd] s = Inr s) \<and>
         update_operators config p ctx [add_operator upd, remove_operator upd] s =
            Inr (s\<lparr>operators :=
                   operator_set_remove config p (operators s)
                     (owner upd) (operator upd) (op_token_id upd)\<rparr>) \<and>
         \<not> is_member config p
             (operator_set_remove config p (operators s) (owner upd) (operator upd) (op_token_id upd))
             (owner upd) (operator upd) (op_token_id upd) \<and>
         (\<not> is_member config p (operators s) (owner upd) (operator upd) (op_token_id upd) \<longrightarrow>
            update_operators config p ctx [add_operator upd, remove_operator upd] s = Inr s)"
  using assms
  by (simp add: update_operators_def update_operator_def add_then_remove_operator
        remove_absent_operator not_member_after_remove)

text \<open>On the contract where Alice has minted token 0 and has no operator: her revoke of
  Robert changes nothing, and her grant followed by her revoke gives the same storage.\<close>

theorem grant_revoke_witness:
  "\<not> is_member env_config toy_primitives (operators minted) alice bob 0 \<and>
   update_operators env_config toy_primitives (call_by alice 0)
       [remove_operator bob_for_alice] minted = Inr minted \<and>
   update_operators env_config toy_primitives (call_by alice 0)
       [add_operator bob_for_alice, remove_operator bob_for_alice] minted = Inr minted"
proof -
  have s: "support_operator env_config" by (simp add: env_config_def)
  have o: "owner bob_for_alice = sender (call_by alice 0)"
    by (simp add: bob_for_alice_def call_by_def)
  have f: "owner bob_for_alice = alice" "operator bob_for_alice = bob" "op_token_id bob_for_alice = 0"
    by (simp_all add: bob_for_alice_def)
  have n: "\<not> is_member env_config toy_primitives (operators minted) alice bob 0"
    by (simp add: is_member_def minted_fields)
  note g = grant_revoke [OF s o, of toy_primitives minted, unfolded f]
  from g n
  have "update_operators env_config toy_primitives (call_by alice 0)
       [remove_operator bob_for_alice] minted = Inr minted"
    and "update_operators env_config toy_primitives (call_by alice 0)
       [add_operator bob_for_alice, remove_operator bob_for_alice] minted = Inr minted"
    by blast+
  with n show ?thesis by blast
qed

subsection \<open>Views\<close>

text \<open>What holds of the views that test the existence of a token: in a state of the
  registry invariant, the balance view and the metadata view fail with
  \<^verbatim>\<open>FA2_TOKEN_UNDEFINED\<close> on every id that is not below \<open>all_tokens\<close>.\<close>

lemma views_undefined:
  assumes "registry_inv s" and "all_tokens s \<le> tid"
  shows "get_balance s \<lparr>req_owner = a, req_token_id = tid\<rparr> = Inl TOKEN_UNDEFINED"
    and "f_process_request s \<lparr>req_owner = a, req_token_id = tid\<rparr> = Inl TOKEN_UNDEFINED"
    and "token_metadata s tid = Inl TOKEN_UNDEFINED"
    and "does_token_exist s tid = False"
proof -
  from assms have "tid \<notin> dom (hashes s)" by (simp add: registry_inv_def)
  then have "hashes s tid = None" by blast
  with assms(2) show "get_balance s \<lparr>req_owner = a, req_token_id = tid\<rparr> = Inl TOKEN_UNDEFINED"
    and "f_process_request s \<lparr>req_owner = a, req_token_id = tid\<rparr> = Inl TOKEN_UNDEFINED"
    and "token_metadata s tid = Inl TOKEN_UNDEFINED"
    and "does_token_exist s tid = False"
    by (simp_all add: get_balance_def f_process_request_def token_metadata_def
          does_token_exist_def contains_def)
qed

text \<open>The supply view tests the id against \<open>max_editions\<close>, not against \<open>all_tokens\<close>.\<close>

lemma total_supply_eq:
  "total_supply s tok = (if tok < max_editions s then Inr 1 else Inl TOKEN_UNDEFINED)"
  by (simp add: total_supply_def)

text \<open>
  \<^bold>\<open>Claim C8\<close>, as stated, fails for the supply view. On the contract as deployed no token
  exists: \<^verbatim>\<open>all_tokens\<close> is 0, \<^verbatim>\<open>does_token_exist(0)\<close> is false, and the balance and
  metadata views fail on id 0 with \<^verbatim>\<open>FA2_TOKEN_UNDEFINED\<close>; yet \<^verbatim>\<open>total_supply(0)\<close> returns
  1, since its guard compares the id with \<open>max_editions\<close>, as the specification says of the
  per-item supply.
\<close>

theorem total_supply_of_missing_token:
  "all_tokens fresh = 0 \<and>
   does_token_exist fresh 0 = False \<and>
   get_balance fresh \<lparr>req_owner = alice, req_token_id = 0\<rparr> = Inl TOKEN_UNDEFINED \<and>
   token_metadata fresh 0 = Inl TOKEN_UNDEFINED \<and>
   total_supply fresh 0 = Inr 1"
  by (simp add: fresh_fields does_token_exist_def get_balance_def token_metadata_def
        total_supply_def contains_def)

text \<open>
  \<^bold>\<open>Claim C8, amended.\<close> In every reachable state the views that look a token up, the
  ownership-balance lookup and the metadata assembly, fail with \<^verbatim>\<open>FA2_TOKEN_UNDEFINED\<close>
  whenever the id does not exist, that is whenever it is not below \<open>all_tokens\<close>. The
  per-item supply view is bounded by the ceiling instead: in every state it returns the
  constant 1 for every id below \<open>max_editions\<close>, minted or not, and fails with
  \<^verbatim>\<open>FA2_TOKEN_UNDEFINED\<close> for every other id.
\<close>

theorem views_token_undefined:
  "(reachable config p s \<and> all_tokens s \<le> tid \<longrightarrow>
      get_balance s \<lparr>req_owner = a, req_token_id = tid\<rparr> = Inl TOKEN_UNDEFINED \<and>
      token_metadata s tid = Inl TOKEN_UNDEFINED) \<and>
   (tok < max_editions s \<longrightarrow> total_supply s tok = Inr 1) \<and>
   (max_editions s \<le> tok \<longrightarrow> total_supply s tok = Inl TOKEN_UNDEFINED)"
proof (intro conjI impI)
  assume "reachable config p s \<and> all_tokens s \<le> tid"
  then have "reachable config p s" and ge: "all_tokens s \<le> tid" by simp_all
  then have inv: "registry_inv s" by (simp add: reachable_registry)
  from views_undefined [OF inv ge]
  show "get_balance s \<lparr>req_owner = a, req_token_id = tid\<rparr> = Inl TOKEN_UNDEFINED"
    and "token_metadata s tid = Inl TOKEN_UNDEFINED"
    by simp_all
next
  assume "tok < max_editions s"
  then show "total_supply s tok = Inr 1" by (simp add: total_supply_eq)
next
  assume "max_editions s \<le> tok"
  then show "total_supply s tok = Inl TOKEN_UNDEFINED" by (simp add: total_supply_eq)
qed

text \<open>Alice has minted token 0 and the ceiling is 4096. Id 1 does not exist: the balance
  and metadata views fail on it, the supply view returns 1. Id 4096 is not below the
  ceiling: the supply view fails on it.\<close>

theorem views_token_undefined_witness:
  "reachable env_config toy_primitives minted \<and> all_tokens minted = 1 \<and>
   max_editions minted = 4096 \<and>
   get_balance minted \<lparr>req_owner = alice, req_token_id = 1\<rparr> = Inl TOKEN_UNDEFINED \<and>
   token_metadata minted 1 = Inl TOKEN_UNDEFINED \<and>
   total_supply minted 1 = Inr 1 \<and>
   total_supply minted 4096 = Inl TOKEN_UNDEFINED"
proof -
  note r = reachable_minted
  have a: "all_tokens minted \<le> 1" and m: "max_editions minted = 4096"
    by (simp_all add: minted_fields)
  note low = views_token_undefined [of env_config toy_primitives minted 1 alice 1]
  note high = views_token_undefined [of env_config toy_primitives minted 1 alice 4096]
  from low r a
  have "get_balance minted \<lparr>req_owner = alice, req_token_id = 1\<rparr> = Inl TOKEN_UNDEFINED"
    and "token_metadata minted 1 = Inl TOKEN_UNDEFINED"
    by blast+
  moreover from low m have "total_supply minted 1 = Inr 1" by simp
  moreover from high m have "total_supply minted 4096 = Inl TOKEN_UNDEFINED" by simp
  ultimately show ?thesis using r m by (simp add: minted_fields)
qed

subsection \<open>Withdrawal\<close>

text \<open>What holds of \<^verbatim>\<open>mutez_transfer\<close>: it fails unless the caller is the administrator,
  it fails when the amount exceeds the balance of the contract, and otherwise it sends
  exactly the amount to the destination and leaves the storage as it is.\<close>

lemma mutez_transfer_eq:
  "mutez_transfer ctx destination amt s =
     (if sender ctx = administrator s \<and> amt \<le> balance ctx
      then Inr ([Send destination amt], s) else Inl WrongCondition)"
  by (simp add: mutez_transfer_def)

text \<open>
  \<^bold>\<open>Claim C9.\<close> The claim asks the withdrawal to fail with \<^verbatim>\<open>FA2_NOT_ADMIN\<close> for a caller
  who is not the administrator. Alice is not the administrator of the contract as
  deployed: her withdrawal fails, though not with \<^verbatim>\<open>FA2_NOT_ADMIN\<close> but with the failure
  of an \<^verbatim>\<open>sp.verify\<close> that has no message, while the entry point \<^verbatim>\<open>set_pause\<close> refuses her
  with \<^verbatim>\<open>FA2_NOT_ADMIN\<close>.
\<close>

theorem mutez_transfer_not_admin:
  "sender (call_by alice 0) \<noteq> administrator fresh \<and>
   mutez_transfer (call_by alice 0) alice 0 fresh = Inl WrongCondition \<and>
   mutez_transfer (call_by alice 0) alice 0 fresh \<noteq> Inl NOT_ADMIN \<and>
   set_pause (call_by alice 0) True fresh = Inl NOT_ADMIN"
  by (simp add: mutez_transfer_def set_pause_def is_administrator_def fresh_fields call_by_def
        alice_def admin_addr_def)

end
